theory Spec2Isabelle
  imports Main
begin

section \<open>Data model of plugin.ts\<close>

text \<open>
  Strings are byte lists: a JavaScript string is read as its UTF-8 encoding. Optional
  properties (\<^verbatim>\<open>x?: T\<close>) and the values that an optional chain \<^verbatim>\<open>a?.b\<close> may find missing are
  \<open>option\<close>s. Thrown JavaScript errors are values of type \<open>error\<close>; a function that may
  throw returns \<open>error + 'a\<close>, with \<open>Inl\<close> for the thrown error. The answers of the
  service and the contents of the state file have the types that the interfaces of the
  source declare. The record \<^verbatim>\<open>processedComments\<close> is a map from document tokens to lists;
  the properties that every JavaScript object inherits are not modelled.
\<close>

datatype error = URIError | TypeError | Error string

text \<open>Interface \<^verbatim>\<open>FeishuReply\<close> and interface \<^verbatim>\<open>FeishuComment\<close>. The field \<open>content\<close>
  stands for \<^verbatim>\<open>content?.elements\<close>, the field \<open>reply_list\<close> for \<^verbatim>\<open>reply_list?.replies\<close>, and
  \<open>el_text\<close> for \<^verbatim>\<open>text_run?.text\<close>.\<close>

record content_element =
  el_type :: string
  el_text :: "string option"

record FeishuReply =
  reply_id :: string
  user_id :: string
  reply_create_time :: string
  reply_content :: "content_element list option"

record FeishuComment =
  comment_id :: string
  create_time :: string
  update_time :: string
  is_solved :: bool
  solver_user_id :: "string option"
  reply_list :: "FeishuReply list option"
  content :: "content_element list option"
  comment_user_id :: string
  quote :: "string option"

record PluginConfig =
  enabled :: bool
  pollIntervalMinutes :: int
  indexDocument :: "string option"
  watchedFiles :: "string list"

record FeishuConfig =
  appId :: string
  appSecret :: string

record ProcessedState =
  lastPollTime :: int
  processedComments :: "string \<rightharpoonup> string list"

text \<open>The blocks of a document, as far as \<^verbatim>\<open>extractDocLinks\<close> reads them: the fifteen
  containers of a block, the elements of a container, and in an element the chain
  \<^verbatim>\<open>text_run?.text_element_style?.link?.url\<close>. The block's \<^verbatim>\<open>text\<close> and \<^verbatim>\<open>quote\<close> containers
  are \<open>text_blk\<close> and \<open>quote_blk\<close>; the string of a text run is \<open>text_str\<close>.\<close>

record link =
  url :: "string option"

record text_element_style =
  link :: "link option"

record text_run =
  text_str :: string
  text_element_style :: "text_element_style option"

record element =
  text_run :: "text_run option"

record container =
  elements :: "element list option"

record block =
  text_blk :: "container option"
  heading1 :: "container option"
  heading2 :: "container option"
  heading3 :: "container option"
  heading4 :: "container option"
  heading5 :: "container option"
  heading6 :: "container option"
  heading7 :: "container option"
  heading8 :: "container option"
  heading9 :: "container option"
  bullet :: "container option"
  ordered :: "container option"
  page :: "container option"
  callout :: "container option"
  quote_blk :: "container option"

section \<open>The outside world\<close>

text \<open>
  An HTTP call of the axios client either throws or answers with \<^verbatim>\<open>response.data\<close>, which
  carries \<open>code\<close>, \<open>msg\<close> and a payload. The agent invocation rejects, resolves with no
  object at all, or resolves with an object whose \<open>response\<close> may be missing.
\<close>

record 'a response_data =
  code :: int
  msg :: string
  payload :: 'a

datatype 'a http = Throws error | Responds "'a response_data"

datatype invoke_result = Rejects error | ResolvesNothing | Resolves "string option"

type_synonym client = string

text \<open>The requests the plugin sends, in the order it sends them.\<close>

datatype call =
    TokenRequest string string
  | BlocksRequest client string
  | CommentsRequest client string string
  | ReplyRequest client string string string string
  | AgentInvoke string

text \<open>The answers of the outside world. Each may depend on every request made before
  it, so that the same request can be answered differently when it is repeated. The
  payload of the token answer is the pair of \<^verbatim>\<open>tenant_access_token\<close> and \<^verbatim>\<open>expire\<close>; the
  payload of the other answers is \<^verbatim>\<open>data?.items\<close>. A client is the bearer token it was
  created with. The parameter \<^verbatim>\<open>fileType\<close> always has its default \<^verbatim>\<open>"docx"\<close>, which the
  requests carry.\<close>

record env =
  postTenantAccessToken :: "call list \<Rightarrow> string \<Rightarrow> string \<Rightarrow> (string \<times> int) http"
  getBlocks :: "call list \<Rightarrow> client \<Rightarrow> string \<Rightarrow> block list option http"
  getComments :: "call list \<Rightarrow> client \<Rightarrow> string \<Rightarrow> FeishuComment list option http"
  postReply :: "call list \<Rightarrow> client \<Rightarrow> string \<Rightarrow> string \<Rightarrow> string \<Rightarrow> unit http"
  invoke :: "call list \<Rightarrow> string \<Rightarrow> invoke_result"
  dateNow :: "call list \<Rightarrow> int"

text \<open>The lines written with \<^verbatim>\<open>console.error\<close>, one constructor for each place that
  writes one. The progress lines of \<^verbatim>\<open>console.log\<close> are not modelled.\<close>

datatype log_entry =
    FailedToGetComments string
  | FailedToGetDocContent string
  | ErrorGettingDocContent error
  | CouldNotReadIndex
  | FailedToReply string
  | ErrorReplying error
  | AgentInvocationFailed error
  | ErrorProcessingFile string error
  | PollError error

text \<open>The file \<^verbatim>\<open>state.json\<close>: missing, not parseable, or holding a state.\<close>

datatype state_file = Missing | Unparseable | Parsed ProcessedState

text \<open>What the plugin can change: the state file, the module's token cache
  (\<^verbatim>\<open>accessToken\<close>, \<^verbatim>\<open>tokenExpiry\<close>), the requests sent and the error lines written.\<close>

record world =
  stateFile :: state_file
  accessToken :: "string option"
  tokenExpiry :: int
  calls :: "call list"
  console :: "log_entry list"

definition sent :: "call \<Rightarrow> world \<Rightarrow> world" where
  "sent c w = w\<lparr>calls := calls w @ [c]\<rparr>"

definition console_error :: "log_entry \<Rightarrow> world \<Rightarrow> world" where
  "console_error l w = w\<lparr>console := console w @ [l]\<rparr>"

section \<open>State file\<close>

definition loadState :: "world \<Rightarrow> ProcessedState" where
  "loadState w =
     (case stateFile w of
        Parsed s \<Rightarrow> s
      | _ \<Rightarrow> \<lparr>lastPollTime = 0, processedComments = Map.empty\<rparr>)"

definition saveState :: "ProcessedState \<Rightarrow> world \<Rightarrow> world" where
  "saveState s w = w\<lparr>stateFile := Parsed s\<rparr>"

section \<open>Link extraction\<close>

text \<open>\<^verbatim>\<open>decodeURIComponent\<close>: every \<^verbatim>\<open>%XX\<close> becomes an octet, and the octets above 127 must
  form well-formed UTF-8. \<open>None\<close> is the URIError.\<close>

definition hexVal :: "char \<Rightarrow> nat option" where
  "hexVal c = (let n = (of_char c :: nat) in
     if 48 \<le> n \<and> n \<le> 57 then Some (n - 48)
     else if 65 \<le> n \<and> n \<le> 70 then Some (n - 55)
     else if 97 \<le> n \<and> n \<le> 102 then Some (n - 87)
     else None)"

fun unescape :: "string \<Rightarrow> (char + nat) list option" where
  "unescape [] = Some []"
| "unescape (c # cs) =
     (if c \<noteq> CHR ''%'' then map_option ((#) (Inl c)) (unescape cs)
      else (case cs of
              h1 # h2 # rest \<Rightarrow>
                (case (hexVal h1, hexVal h2) of
                   (Some a, Some b) \<Rightarrow> map_option ((#) (Inr (16 * a + b))) (unescape rest)
                 | _ \<Rightarrow> None)
            | _ \<Rightarrow> None))"

definition isCont :: "nat \<Rightarrow> bool" where
  "isCont b \<longleftrightarrow> 128 \<le> b \<and> b < 192"

definition validCodePoint :: "nat \<Rightarrow> nat \<Rightarrow> bool" where
  "validCodePoint n cp \<longleftrightarrow>
     (if n = 2 then 128 \<le> cp
      else if n = 3 then 2048 \<le> cp \<and> \<not> (55296 \<le> cp \<and> cp \<le> 57343)
      else 65536 \<le> cp \<and> cp \<le> 1114111)"

fun utf8Octets :: "(char + nat) list \<Rightarrow> string option" where
  "utf8Octets [] = Some []"
| "utf8Octets (Inl c # xs) = map_option ((#) c) (utf8Octets xs)"
| "utf8Octets (Inr b # xs) =
     (if b < 128 then map_option ((#) (char_of b)) (utf8Octets xs)
      else if 192 \<le> b \<and> b < 224 then
        (case xs of
           Inr b1 # rest \<Rightarrow>
             (if isCont b1 \<and> validCodePoint 2 ((b - 192) * 64 + (b1 - 128))
              then map_option ((@) (map char_of [b, b1])) (utf8Octets rest) else None)
         | _ \<Rightarrow> None)
      else if 224 \<le> b \<and> b < 240 then
        (case xs of
           Inr b1 # Inr b2 # rest \<Rightarrow>
             (if isCont b1 \<and> isCont b2 \<and>
                 validCodePoint 3 (((b - 224) * 64 + (b1 - 128)) * 64 + (b2 - 128))
              then map_option ((@) (map char_of [b, b1, b2])) (utf8Octets rest) else None)
         | _ \<Rightarrow> None)
      else if 240 \<le> b \<and> b < 248 then
        (case xs of
           Inr b1 # Inr b2 # Inr b3 # rest \<Rightarrow>
             (if isCont b1 \<and> isCont b2 \<and> isCont b3 \<and>
                 validCodePoint 4
                   ((((b - 240) * 64 + (b1 - 128)) * 64 + (b2 - 128)) * 64 + (b3 - 128))
              then map_option ((@) (map char_of [b, b1, b2, b3])) (utf8Octets rest)
              else None)
         | _ \<Rightarrow> None)
      else None)"

definition decodeURIComponent :: "string \<Rightarrow> string option" where
  "decodeURIComponent s = (case unescape s of None \<Rightarrow> None | Some xs \<Rightarrow> utf8Octets xs)"

text \<open>The pattern \<^verbatim>\<open>/(?:docx?|wiki)\/([a-zA-Z0-9]+)/gi\<close>. \<open>docUrlPattern s\<close> matches it at the
  start of \<open>s\<close> and gives the captured token and the length of the match. Without the
  \<^verbatim>\<open>u\<close> flag, ignoring case maps no character above 127 to a letter.\<close>

definition canonicalize :: "char \<Rightarrow> nat" where
  "canonicalize c = (let n = (of_char c :: nat) in if 97 \<le> n \<and> n \<le> 122 then n - 32 else n)"

definition isAlnum :: "char \<Rightarrow> bool" where
  "isAlnum c \<longleftrightarrow> (let n = (of_char c :: nat) in
     (48 \<le> n \<and> n \<le> 57) \<or> (65 \<le> n \<and> n \<le> 90) \<or> (97 \<le> n \<and> n \<le> 122))"

definition matchesIgnoreCase :: "string \<Rightarrow> string \<Rightarrow> bool" where
  "matchesIgnoreCase p s \<longleftrightarrow>
     length p \<le> length s \<and> map canonicalize (take (length p) s) = map canonicalize p"

definition docUrlPattern :: "string \<Rightarrow> (string \<times> nat) option" where
  "docUrlPattern s =
     (let k = (if matchesIgnoreCase ''docx/'' s then Some 5
               else if matchesIgnoreCase ''doc/'' s then Some 4
               else if matchesIgnoreCase ''wiki/'' s then Some 5
               else None)
      in case k of
           None \<Rightarrow> None
         | Some n \<Rightarrow>
             (let token = takeWhile isAlnum (drop n s)
              in if token = [] then None else Some (token, n + length token)))"

text \<open>The loop \<^verbatim>\<open>while ((match = docUrlPattern.exec(decodedUrl)) !== null)\<close>: the tokens of
  the successive matches. The first argument is the number of characters left before
  \<^verbatim>\<open>lastIndex\<close>, where the next search starts.\<close>

fun execAll :: "nat \<Rightarrow> string \<Rightarrow> string list" where
  "execAll _ [] = []"
| "execAll (Suc skip) (c # cs) = execAll skip cs"
| "execAll 0 (c # cs) =
     (case docUrlPattern (c # cs) of
        None \<Rightarrow> execAll 0 cs
      | Some (token, len) \<Rightarrow> token # execAll (len - 1) cs)"

definition pushNew :: "string list \<Rightarrow> string \<Rightarrow> string list" where
  "pushNew docTokens token =
     (if token \<in> set docTokens then docTokens else docTokens @ [token])"

definition extractFromUrl :: "string \<Rightarrow> string list \<Rightarrow> error + string list" where
  "extractFromUrl u docTokens =
     (case decodeURIComponent u of
        None \<Rightarrow> Inl URIError
      | Some decodedUrl \<Rightarrow> Inr (foldl pushNew docTokens (execAll 0 decodedUrl)))"

definition linkUrl :: "element \<Rightarrow> string option" where
  "linkUrl e =
     (case text_run e of
        None \<Rightarrow> None
      | Some tr \<Rightarrow>
          (case text_element_style tr of
             None \<Rightarrow> None
           | Some st \<Rightarrow> (case link st of None \<Rightarrow> None | Some l \<Rightarrow> url l)))"

fun processElements :: "element list \<Rightarrow> string list \<Rightarrow> error + string list" where
  "processElements [] docTokens = Inr docTokens"
| "processElements (e # es) docTokens =
     (case linkUrl e of
        None \<Rightarrow> processElements es docTokens
      | Some u \<Rightarrow>
          if u = [] then processElements es docTokens
          else (case extractFromUrl u docTokens of
                  Inl err \<Rightarrow> Inl err
                | Inr docTokens' \<Rightarrow> processElements es docTokens'))"

definition elementContainers :: "block \<Rightarrow> container option list" where
  "elementContainers b =
     [text_blk b, heading1 b, heading2 b, heading3 b, heading4 b, heading5 b, heading6 b,
      heading7 b, heading8 b, heading9 b, bullet b, ordered b, page b, callout b,
      quote_blk b]"

fun processContainers :: "container option list \<Rightarrow> string list \<Rightarrow> error + string list" where
  "processContainers [] docTokens = Inr docTokens"
| "processContainers (c # cs) docTokens =
     (case c of
        None \<Rightarrow> processContainers cs docTokens
      | Some cont \<Rightarrow>
          (case elements cont of
             None \<Rightarrow> processContainers cs docTokens
           | Some els \<Rightarrow>
               (case processElements els docTokens of
                  Inl err \<Rightarrow> Inl err
                | Inr docTokens' \<Rightarrow> processContainers cs docTokens')))"

fun processBlocks :: "block list \<Rightarrow> string list \<Rightarrow> error + string list" where
  "processBlocks [] docTokens = Inr docTokens"
| "processBlocks (b # bs) docTokens =
     (case processContainers (elementContainers b) docTokens of
        Inl err \<Rightarrow> Inl err
      | Inr docTokens' \<Rightarrow> processBlocks bs docTokens')"

definition extractDocLinks :: "block list \<Rightarrow> error + string list" where
  "extractDocLinks blocks = processBlocks blocks []"

section \<open>Requests to the document service\<close>

text \<open>A string that may be missing is truthy when it is there and not empty.\<close>

definition truthy :: "string option \<Rightarrow> bool" where
  "truthy v \<longleftrightarrow> (case v of None \<Rightarrow> False | Some s \<Rightarrow> s \<noteq> [])"

definition getTenantAccessToken :: "env \<Rightarrow> string \<Rightarrow> string \<Rightarrow> world \<Rightarrow> (error + string) \<times> world" where
  "getTenantAccessToken ev app secret w =
     (let now = dateNow ev (calls w) in
      if truthy (accessToken w) \<and> tokenExpiry w > now then (Inr (the (accessToken w)), w)
      else
        (let w1 = sent (TokenRequest app secret) w in
         case postTenantAccessToken ev (calls w) app secret of
           Throws err \<Rightarrow> (Inl err, w1)
         | Responds r \<Rightarrow>
             if code r \<noteq> 0 then (Inl (Error (''Failed to get access token: '' @ msg r)), w1)
             else (Inr (fst (payload r)),
                   w1\<lparr>accessToken := Some (fst (payload r)),
                      tokenExpiry := now + (snd (payload r) - 60) * 1000\<rparr>)))"

definition getFileComments :: "env \<Rightarrow> client \<Rightarrow> string \<Rightarrow> world \<Rightarrow> (error + FeishuComment list) \<times> world" where
  "getFileComments ev cl fileToken w =
     (let w1 = sent (CommentsRequest cl fileToken ''docx'') w in
      case getComments ev (calls w) cl fileToken of
        Throws err \<Rightarrow> (Inl err, w1)
      | Responds r \<Rightarrow>
          if code r \<noteq> 0 then (Inr [], console_error (FailedToGetComments (msg r)) w1)
          else (Inr (case payload r of None \<Rightarrow> [] | Some items \<Rightarrow> items), w1))"

text \<open>\<^verbatim>\<open>getDocumentContent\<close> answers \<open>None\<close> for the source's \<^verbatim>\<open>null\<close>.\<close>

definition getDocumentContent :: "env \<Rightarrow> client \<Rightarrow> string \<Rightarrow> world \<Rightarrow> block list option \<times> world" where
  "getDocumentContent ev cl fileToken w =
     (let w1 = sent (BlocksRequest cl fileToken) w in
      case getBlocks ev (calls w) cl fileToken of
        Throws err \<Rightarrow> (None, console_error (ErrorGettingDocContent err) w1)
      | Responds r \<Rightarrow>
          if code r \<noteq> 0 then (None, console_error (FailedToGetDocContent (msg r)) w1)
          else (Some (case payload r of None \<Rightarrow> [] | Some items \<Rightarrow> items), w1))"

definition getWatchedFilesFromIndex :: "env \<Rightarrow> client \<Rightarrow> string \<Rightarrow> world \<Rightarrow> (error + string list) \<times> world" where
  "getWatchedFilesFromIndex ev cl indexDocToken w =
     (case getDocumentContent ev cl indexDocToken w of
        (None, w1) \<Rightarrow> (Inr [], console_error CouldNotReadIndex w1)
      | (Some blocks, w1) \<Rightarrow> (extractDocLinks blocks, w1))"

definition replyToComment :: "env \<Rightarrow> client \<Rightarrow> string \<Rightarrow> string \<Rightarrow> string \<Rightarrow> world \<Rightarrow> bool \<times> world" where
  "replyToComment ev cl fileToken commentId replyText w =
     (let w1 = sent (ReplyRequest cl fileToken commentId replyText ''docx'') w in
      case postReply ev (calls w) cl fileToken commentId replyText of
        Throws err \<Rightarrow> (False, console_error (ErrorReplying err) w1)
      | Responds r \<Rightarrow>
          if code r \<noteq> 0 then (False, console_error (FailedToReply (msg r)) w1)
          else (True, w1))"

section \<open>Reply generation\<close>

text \<open>The pieces of the two prompt templates and the two fixed replies, as the UTF-8
  bytes of the source's string literals.\<close>

definition quotedPromptHead :: string where
  "quotedPromptHead =
     [CHR 0xE7, CHR 0x94, CHR 0xA8, CHR 0xE6, CHR 0x88, CHR 0xB7, CHR 0xE5, CHR 0x9C,
      CHR 0xA8, CHR 0xE9, CHR 0xA3, CHR 0x9E, CHR 0xE4, CHR 0xB9, CHR 0xA6, CHR 0xE6,
      CHR 0x96, CHR 0x87, CHR 0xE6, CHR 0xA1, CHR 0xA3, CHR 0xE4, CHR 0xB8, CHR 0xAD,
      CHR 0xE5, CHR 0xAF, CHR 0xB9, CHR 0xE4, CHR 0xBB, CHR 0xA5, CHR 0xE4, CHR 0xB8,
      CHR 0x8B, CHR 0xE5, CHR 0x86, CHR 0x85, CHR 0xE5, CHR 0xAE, CHR 0xB9, CHR 0xE5,
      CHR 0x88, CHR 0x92, CHR 0xE8, CHR 0xAF, CHR 0x8D, CHR 0xE8, CHR 0xAF, CHR 0x84,
      CHR 0xE8, CHR 0xAE, CHR 0xBA, CHR 0xEF, CHR 0xBC, CHR 0x9A, CHR 0x0A, CHR 0x0A,
      CHR 0xE5, CHR 0xBC, CHR 0x95, CHR 0xE7, CHR 0x94, CHR 0xA8, CHR 0xE5, CHR 0x86,
      CHR 0x85, CHR 0xE5, CHR 0xAE, CHR 0xB9, CHR 0xEF, CHR 0xBC, CHR 0x9A, CHR 0xE3,
      CHR 0x80, CHR 0x8C]"

definition quotedPromptMiddle :: string where
  "quotedPromptMiddle =
     [CHR 0xE3, CHR 0x80, CHR 0x8D, CHR 0x0A, CHR 0x0A, CHR 0xE8, CHR 0xAF, CHR 0x84,
      CHR 0xE8, CHR 0xAE, CHR 0xBA, CHR 0xEF, CHR 0xBC, CHR 0x9A]"

definition plainPromptHead :: string where
  "plainPromptHead =
     [CHR 0xE7, CHR 0x94, CHR 0xA8, CHR 0xE6, CHR 0x88, CHR 0xB7, CHR 0xE5, CHR 0x9C,
      CHR 0xA8, CHR 0xE9, CHR 0xA3, CHR 0x9E, CHR 0xE4, CHR 0xB9, CHR 0xA6, CHR 0xE6,
      CHR 0x96, CHR 0x87, CHR 0xE6, CHR 0xA1, CHR 0xA3, CHR 0xE4, CHR 0xB8, CHR 0xAD,
      CHR 0xE5, CHR 0x8F, CHR 0x91, CHR 0xE8, CHR 0xA1, CHR 0xA8, CHR 0xE4, CHR 0xBA,
      CHR 0x86, CHR 0xE8, CHR 0xAF, CHR 0x84, CHR 0xE8, CHR 0xAE, CHR 0xBA, CHR 0xEF,
      CHR 0xBC, CHR 0x9A]"

definition promptTail :: string where
  "promptTail =
     [CHR 0x0A, CHR 0x0A, CHR 0xE8, CHR 0xAF, CHR 0xB7, CHR 0xE5, CHR 0x9B, CHR 0x9E,
      CHR 0xE5, CHR 0xA4, CHR 0x8D, CHR 0xE8, CHR 0xBF, CHR 0x99, CHR 0xE6, CHR 0x9D,
      CHR 0xA1, CHR 0xE8, CHR 0xAF, CHR 0x84, CHR 0xE8, CHR 0xAE, CHR 0xBA, CHR 0xE3,
      CHR 0x80, CHR 0x82]"

definition emptyResponseReply :: string where
  "emptyResponseReply =
     [CHR 0xE6, CHR 0x8A, CHR 0xB1, CHR 0xE6, CHR 0xAD, CHR 0x89, CHR 0xEF, CHR 0xBC,
      CHR 0x8C, CHR 0xE6, CHR 0x88, CHR 0x91, CHR 0xE6, CHR 0x9A, CHR 0x82, CHR 0xE6,
      CHR 0x97, CHR 0xB6, CHR 0xE6, CHR 0x97, CHR 0xA0, CHR 0xE6, CHR 0xB3, CHR 0x95,
      CHR 0xE5, CHR 0xA4, CHR 0x84, CHR 0xE7, CHR 0x90, CHR 0x86, CHR 0xE8, CHR 0xBF,
      CHR 0x99, CHR 0xE6, CHR 0x9D, CHR 0xA1, CHR 0xE8, CHR 0xAF, CHR 0x84, CHR 0xE8,
      CHR 0xAE, CHR 0xBA, CHR 0xE3, CHR 0x80, CHR 0x82]"

definition invocationFailedReply :: string where
  "invocationFailedReply =
     [CHR 0xE6, CHR 0x8A, CHR 0xB1, CHR 0xE6, CHR 0xAD, CHR 0x89, CHR 0xEF, CHR 0xBC,
      CHR 0x8C, CHR 0xE5, CHR 0xA4, CHR 0x84, CHR 0xE7, CHR 0x90, CHR 0x86, CHR 0xE8,
      CHR 0xAF, CHR 0x84, CHR 0xE8, CHR 0xAE, CHR 0xBA, CHR 0xE6, CHR 0x97, CHR 0xB6,
      CHR 0xE9, CHR 0x81, CHR 0x87, CHR 0xE5, CHR 0x88, CHR 0xB0, CHR 0xE4, CHR 0xBA,
      CHR 0x86, CHR 0xE9, CHR 0x97, CHR 0xAE, CHR 0xE9, CHR 0xA2, CHR 0x98, CHR 0xEF,
      CHR 0xBC, CHR 0x8C, CHR 0xE8, CHR 0xAF, CHR 0xB7, CHR 0xE7, CHR 0xA8, CHR 0x8D,
      CHR 0xE5, CHR 0x90, CHR 0x8E, CHR 0xE5, CHR 0x86, CHR 0x8D, CHR 0xE8, CHR 0xAF,
      CHR 0x95, CHR 0xE3, CHR 0x80, CHR 0x82]"

definition extractTextFromContent :: "content_element list option \<Rightarrow> string" where
  "extractTextFromContent c =
     (case c of
        None \<Rightarrow> []
      | Some els \<Rightarrow>
          concat (map (\<lambda>el. the (el_text el))
            (filter (\<lambda>el. el_type el = ''textRun'' \<and> truthy (el_text el)) els)))"

text \<open>The prompt of \<^verbatim>\<open>processCommentWithAgent\<close>, with or without the quoted text.\<close>

definition buildPrompt :: "string \<Rightarrow> string option \<Rightarrow> string" where
  "buildPrompt commentText q =
     (if truthy q
      then quotedPromptHead @ the q @ quotedPromptMiddle @ commentText @ promptTail
      else plainPromptHead @ commentText @ promptTail)"

definition processCommentWithAgent :: "env \<Rightarrow> string \<Rightarrow> string option \<Rightarrow> world \<Rightarrow> string \<times> world" where
  "processCommentWithAgent ev commentText q w =
     (let prompt = buildPrompt commentText q;
          w1 = sent (AgentInvoke prompt) w
      in case invoke ev (calls w) prompt of
           Rejects err \<Rightarrow> (invocationFailedReply, console_error (AgentInvocationFailed err) w1)
         | ResolvesNothing \<Rightarrow>
             (invocationFailedReply, console_error (AgentInvocationFailed TypeError) w1)
         | Resolves r \<Rightarrow> (if truthy r then the r else emptyResponseReply, w1))"

section \<open>The poll cycle\<close>

text \<open>\<^verbatim>\<open>state.processedComments[fileToken] || []\<close>. For a token without an entry that
  names a property inherited by every JavaScript object (such as \<^verbatim>\<open>constructor\<close>) the source
  finds that property instead of the empty list, fails at the first comment and records
  nothing for the document; document tokens are taken not to be such names.\<close>

definition processedIdsOf :: "ProcessedState \<Rightarrow> string \<Rightarrow> string list" where
  "processedIdsOf s fileToken =
     (case processedComments s fileToken of None \<Rightarrow> [] | Some ids \<Rightarrow> ids)"

text \<open>\<^verbatim>\<open>comment.reply_list?.replies?.some((r) => r.user_id === "bot")\<close>\<close>

definition hasOurReply :: "FeishuComment \<Rightarrow> bool" where
  "hasOurReply c \<longleftrightarrow>
     (case reply_list c of None \<Rightarrow> False | Some rs \<Rightarrow> list_ex (\<lambda>r. user_id r = ''bot'') rs)"

text \<open>The body of the loop over the comments of one document: the list \<open>processedIds\<close>
  and the world before the comment, and after it.\<close>

definition processComment :: "env \<Rightarrow> client \<Rightarrow> string \<Rightarrow> FeishuComment \<Rightarrow> string list \<times> world \<Rightarrow> string list \<times> world" where
  "processComment ev cl fileToken c st =
     (case st of (processedIds, w) \<Rightarrow>
        if comment_id c \<in> set processedIds then (processedIds, w)
        else if is_solved c then (processedIds @ [comment_id c], w)
        else if hasOurReply c then (processedIds @ [comment_id c], w)
        else
          (let commentText = extractTextFromContent (content c) in
           case processCommentWithAgent ev commentText (quote c) w of
             (response, w1) \<Rightarrow>
               (case replyToComment ev cl fileToken (comment_id c) response w1 of
                  (success, w2) \<Rightarrow>
                    if success then (processedIds @ [comment_id c], w2)
                    else (processedIds, w2))))"

fun pollComments :: "env \<Rightarrow> client \<Rightarrow> string \<Rightarrow> FeishuComment list \<Rightarrow> string list \<times> world \<Rightarrow> string list \<times> world" where
  "pollComments ev cl fileToken [] st = st"
| "pollComments ev cl fileToken (c # cs) st =
     pollComments ev cl fileToken cs (processComment ev cl fileToken c st)"

text \<open>The body of the loop over the watched documents, with its \<^verbatim>\<open>try\<close> and \<^verbatim>\<open>catch\<close>.\<close>

definition pollFile :: "env \<Rightarrow> client \<Rightarrow> string \<Rightarrow> ProcessedState \<times> world \<Rightarrow> ProcessedState \<times> world" where
  "pollFile ev cl fileToken st =
     (case st of (state, w) \<Rightarrow>
        (case getFileComments ev cl fileToken w of
           (Inl err, w1) \<Rightarrow> (state, console_error (ErrorProcessingFile fileToken err) w1)
         | (Inr comments, w1) \<Rightarrow>
             (case pollComments ev cl fileToken comments (processedIdsOf state fileToken, w1) of
                (processedIds, w2) \<Rightarrow>
                  (state\<lparr>processedComments :=
                      (processedComments state)(fileToken \<mapsto> processedIds)\<rparr>, w2))))"

fun pollFiles :: "env \<Rightarrow> client \<Rightarrow> string list \<Rightarrow> ProcessedState \<times> world \<Rightarrow> ProcessedState \<times> world" where
  "pollFiles ev cl [] st = st"
| "pollFiles ev cl (fileToken # rest) st = pollFiles ev cl rest (pollFile ev cl fileToken st)"

text \<open>Lines 325 to 335 of \<^verbatim>\<open>pollDocumentComments\<close>: the documents to watch.\<close>

definition resolveWatchedFiles :: "env \<Rightarrow> client \<Rightarrow> PluginConfig \<Rightarrow> world \<Rightarrow> (error + string list) \<times> world" where
  "resolveWatchedFiles ev cl config w =
     (case (if truthy (indexDocument config)
            then getWatchedFilesFromIndex ev cl (the (indexDocument config)) w
            else (Inr [], w)) of
        (Inl err, w1) \<Rightarrow> (Inl err, w1)
      | (Inr found, w1) \<Rightarrow>
          (Inr (if found = [] \<and> watchedFiles config \<noteq> [] then watchedFiles config else found),
           w1))"

definition pollDocumentComments :: "env \<Rightarrow> PluginConfig \<Rightarrow> FeishuConfig \<Rightarrow> world \<Rightarrow> (error + unit) \<times> world" where
  "pollDocumentComments ev config feishuConfig w =
     (if \<not> enabled config then (Inr (), w)
      else
        (let state = loadState w in
         case getTenantAccessToken ev (appId feishuConfig) (appSecret feishuConfig) w of
           (Inl err, w1) \<Rightarrow> (Inl err, w1)
         | (Inr token, w1) \<Rightarrow>
             (case resolveWatchedFiles ev token config w1 of
                (Inl err, w2) \<Rightarrow> (Inl err, w2)
              | (Inr files, w2) \<Rightarrow>
                  if files = [] then (Inr (), w2)
                  else
                    (case pollFiles ev token files (state, w2) of
                       (state', w3) \<Rightarrow>
                         (Inr (),
                          saveState (state'\<lparr>lastPollTime := dateNow ev (calls w3)\<rparr>) w3)))))"

text \<open>\<^verbatim>\<open>doPoll\<close>, which the timer runs: one poll cycle, its error caught and written.\<close>

definition doPoll :: "env \<Rightarrow> PluginConfig \<Rightarrow> FeishuConfig \<Rightarrow> world \<Rightarrow> world" where
  "doPoll ev config feishuConfig w =
     (case pollDocumentComments ev config feishuConfig w of
        (Inl err, w1) \<Rightarrow> console_error (PollError err) w1
      | (Inr u, w1) \<Rightarrow> w1)"

section \<open>Observations and examples\<close>

text \<open>The replies posted are the reply requests among the requests sent.\<close>

fun isReplyRequest :: "call \<Rightarrow> bool" where
  "isReplyRequest (ReplyRequest cl f cid txt ft) = True"
| "isReplyRequest _ = False"

definition replyRequests :: "call list \<Rightarrow> call list" where
  "replyRequests cs = filter isReplyRequest cs"

text \<open>Rewriting the string of every text run of a block, the links left as they are.\<close>

definition retextElement :: "(string \<Rightarrow> string) \<Rightarrow> element \<Rightarrow> element" where
  "retextElement g e =
     e\<lparr>text_run := map_option (\<lambda>tr. tr\<lparr>text_str := g (text_str tr)\<rparr>) (text_run e)\<rparr>"

definition retextContainer :: "(string \<Rightarrow> string) \<Rightarrow> container option \<Rightarrow> container option" where
  "retextContainer g =
     map_option (\<lambda>cont. cont\<lparr>elements := map_option (map (retextElement g)) (elements cont)\<rparr>)"

definition retextBlock :: "(string \<Rightarrow> string) \<Rightarrow> block \<Rightarrow> block" where
  "retextBlock g b =
     \<lparr>text_blk = retextContainer g (text_blk b),
      heading1 = retextContainer g (heading1 b), heading2 = retextContainer g (heading2 b),
      heading3 = retextContainer g (heading3 b), heading4 = retextContainer g (heading4 b),
      heading5 = retextContainer g (heading5 b), heading6 = retextContainer g (heading6 b),
      heading7 = retextContainer g (heading7 b), heading8 = retextContainer g (heading8 b),
      heading9 = retextContainer g (heading9 b), bullet = retextContainer g (bullet b),
      ordered = retextContainer g (ordered b), page = retextContainer g (page b),
      callout = retextContainer g (callout b), quote_blk = retextContainer g (quote_blk b)\<rparr>"

text \<open>
  What the specification says of link extraction (section 4.2): every embedded link of
  every element of every container of every block is read, in the order of the blocks,
  of the containers within a block (text, the nine heading levels, bullet, ordered, page,
  callout, quote) and of the elements within a container; each link gives the tokens that
  follow a document or wiki path segment; the unique tokens are collected in first-seen
  order. \<open>linkUrls\<close> is the list of these links, \<open>urlTokens\<close> the tokens of one link,
  \<open>firstSeen\<close> a list without its repetitions, and \<open>specDocLinks\<close> the result. A link that
  \<^verbatim>\<open>decodeURIComponent\<close> rejects ends the extraction with its URIError.
\<close>

definition elementUrls :: "element list \<Rightarrow> string list" where
  "elementUrls es =
     concat (map (\<lambda>e. case linkUrl e of None \<Rightarrow> [] | Some u \<Rightarrow> if u = [] then [] else [u]) es)"

definition containerUrls :: "container option \<Rightarrow> string list" where
  "containerUrls c =
     (case c of
        None \<Rightarrow> []
      | Some cont \<Rightarrow> (case elements cont of None \<Rightarrow> [] | Some es \<Rightarrow> elementUrls es))"

definition blockUrls :: "block \<Rightarrow> string list" where
  "blockUrls b =
     containerUrls (text_blk b) @ containerUrls (heading1 b) @ containerUrls (heading2 b) @
     containerUrls (heading3 b) @ containerUrls (heading4 b) @ containerUrls (heading5 b) @
     containerUrls (heading6 b) @ containerUrls (heading7 b) @ containerUrls (heading8 b) @
     containerUrls (heading9 b) @ containerUrls (bullet b) @ containerUrls (ordered b) @
     containerUrls (page b) @ containerUrls (callout b) @ containerUrls (quote_blk b)"

definition linkUrls :: "block list \<Rightarrow> string list" where
  "linkUrls bs = concat (map blockUrls bs)"

fun firstSeen :: "'a list \<Rightarrow> 'a list" where
  "firstSeen [] = []"
| "firstSeen (x # xs) = x # filter (\<lambda>y. y \<noteq> x) (firstSeen xs)"

definition decodable :: "string \<Rightarrow> bool" where
  "decodable u \<longleftrightarrow> decodeURIComponent u \<noteq> None"

definition urlTokens :: "string \<Rightarrow> string list" where
  "urlTokens u = (case decodeURIComponent u of None \<Rightarrow> [] | Some d \<Rightarrow> execAll 0 d)"

definition specDocLinks :: "block list \<Rightarrow> error + string list" where
  "specDocLinks bs =
     (if list_all decodable (linkUrls bs)
      then Inr (firstSeen (concat (map urlTokens (linkUrls bs))))
      else Inl URIError)"

text \<open>Concrete inputs for the examples below.\<close>

definition linkedElement :: "string \<Rightarrow> string \<Rightarrow> element" where
  "linkedElement t u =
     \<lparr>text_run = Some \<lparr>text_str = t,
        text_element_style = Some \<lparr>link = Some \<lparr>url = Some u\<rparr>\<rparr>\<rparr>\<rparr>"

definition plainElement :: "string \<Rightarrow> element" where
  "plainElement t = \<lparr>text_run = Some \<lparr>text_str = t, text_element_style = None\<rparr>\<rparr>"

definition emptyBlock :: block where
  "emptyBlock =
     \<lparr>text_blk = None, heading1 = None, heading2 = None, heading3 = None, heading4 = None,
      heading5 = None, heading6 = None, heading7 = None, heading8 = None, heading9 = None,
      bullet = None, ordered = None, page = None, callout = None, quote_blk = None\<rparr>"

definition okData :: "'a \<Rightarrow> 'a response_data" where
  "okData x = \<lparr>code = 0, msg = ''success'', payload = x\<rparr>"

definition failedData :: "'a \<Rightarrow> 'a response_data" where
  "failedData x = \<lparr>code = 99991663, msg = ''forbidden'', payload = x\<rparr>"

definition exampleComment :: "string \<Rightarrow> FeishuComment" where
  "exampleComment cid =
     \<lparr>comment_id = cid, create_time = ''1700000000'', update_time = ''1700000000'',
      is_solved = False, solver_user_id = None, reply_list = None,
      content = Some [\<lparr>el_type = ''textRun'', el_text = Some ''why?''\<rparr>],
      comment_user_id = ''ou_reader'', quote = None\<rparr>"

definition exampleReply :: "string \<Rightarrow> FeishuReply" where
  "exampleReply uid =
     \<lparr>reply_id = ''r1'', user_id = uid, reply_create_time = ''1700000100'',
      reply_content = Some [\<lparr>el_type = ''textRun'', el_text = Some ''because''\<rparr>]\<rparr>"

text \<open>A service that answers every request with success: the token \<open>t-1\<close>, an index
  document without blocks, the comments \<open>cs\<close> on every document, the agent's answer \<open>ok\<close>,
  and the clock at 1000.\<close>

definition exampleEnv :: "FeishuComment list \<Rightarrow> env" where
  "exampleEnv cs =
     \<lparr>postTenantAccessToken = (\<lambda>h a s. Responds (okData (''t-1'', 7200))),
      getBlocks = (\<lambda>h cl f. Responds (okData None)),
      getComments = (\<lambda>h cl f. Responds (okData (Some cs))),
      postReply = (\<lambda>h cl f cid txt. Responds (okData ())),
      invoke = (\<lambda>h p. Resolves (Some ''ok'')),
      dateNow = (\<lambda>h. 1000)\<rparr>"

definition rejectingPosts :: "env \<Rightarrow> env" where
  "rejectingPosts ev = ev\<lparr>postReply := (\<lambda>h cl f cid txt. Responds (failedData ()))\<rparr>"

definition failingFetch :: "string \<Rightarrow> env \<Rightarrow> env" where
  "failingFetch doc ev =
     ev\<lparr>getComments := (\<lambda>h cl f. if f = doc then Throws (Error ''timeout'')
                                else getComments ev h cl f)\<rparr>"

definition refusingFetch :: "string \<Rightarrow> env \<Rightarrow> env" where
  "refusingFetch doc ev =
     ev\<lparr>getComments := (\<lambda>h cl f. if f = doc then Responds (failedData None)
                                else getComments ev h cl f)\<rparr>"

definition freshWorld :: world where
  "freshWorld =
     \<lparr>stateFile = Missing, accessToken = None, tokenExpiry = 0, calls = [], console = []\<rparr>"

definition exampleConfig :: PluginConfig where
  "exampleConfig =
     \<lparr>enabled = True, pollIntervalMinutes = 15, indexDocument = None,
      watchedFiles = [''docA'']\<rparr>"

definition exampleFeishu :: FeishuConfig where
  "exampleFeishu = \<lparr>appId = ''cli_app'', appSecret = ''secret''\<rparr>"

section \<open>Facts about link extraction\<close>

lemma distinct_pushNew: "distinct ts \<Longrightarrow> distinct (pushNew ts t)"
  by (simp add: pushNew_def)

lemma distinct_foldl_pushNew: "distinct ts \<Longrightarrow> distinct (foldl pushNew ts xs)"
  by (induction xs arbitrary: ts) (simp_all add: distinct_pushNew)

lemma distinct_extractFromUrl:
  "distinct ts \<Longrightarrow> extractFromUrl u ts = Inr ts' \<Longrightarrow> distinct ts'"
  by (auto simp: extractFromUrl_def distinct_foldl_pushNew split: option.splits)

lemma distinct_processElements:
  "distinct ts \<Longrightarrow> processElements es ts = Inr ts' \<Longrightarrow> distinct ts'"
proof (induction es arbitrary: ts)
  case Nil
  then show ?case by simp
next
  case (Cons e es)
  then show ?case
    by (auto split: option.splits if_splits sum.splits dest: distinct_extractFromUrl)
qed

lemma distinct_processContainers:
  "distinct ts \<Longrightarrow> processContainers cs ts = Inr ts' \<Longrightarrow> distinct ts'"
proof (induction cs arbitrary: ts)
  case Nil
  then show ?case by simp
next
  case (Cons c cs)
  then show ?case
    by (auto split: option.splits sum.splits dest: distinct_processElements)
qed

lemma distinct_processBlocks:
  "distinct ts \<Longrightarrow> processBlocks bs ts = Inr ts' \<Longrightarrow> distinct ts'"
proof (induction bs arbitrary: ts)
  case Nil
  then show ?case by simp
next
  case (Cons b bs)
  then show ?case
    by (auto split: sum.splits dest: distinct_processContainers)
qed

lemma execAll_docx_example: "execAll 0 ''https://x.feishu.cn/docx/ABC123'' = [''ABC123'']"
  by code_simp

lemma execAll_wiki_example: "execAll 0 ''https://x.feishu.cn/wiki/XYZ789'' = [''XYZ789'']"
  by code_simp

lemma decode_docx_example:
  "decodeURIComponent ''https://x.feishu.cn/docx/ABC123'' =
     Some ''https://x.feishu.cn/docx/ABC123''"
  by code_simp

lemma decode_wiki_example:
  "decodeURIComponent ''https://x.feishu.cn/wiki/XYZ789'' =
     Some ''https://x.feishu.cn/wiki/XYZ789''"
  by code_simp

lemma extractFromUrl_docx_example:
  "extractFromUrl ''https://x.feishu.cn/docx/ABC123'' ts = Inr (pushNew ts ''ABC123'')"
  by (simp add: extractFromUrl_def decode_docx_example execAll_docx_example
      del: execAll.simps)

lemma extractFromUrl_wiki_example:
  "extractFromUrl ''https://x.feishu.cn/wiki/XYZ789'' ts = Inr (pushNew ts ''XYZ789'')"
  by (simp add: extractFromUrl_def decode_wiki_example execAll_wiki_example
      del: execAll.simps)

lemmas extraction_example_defs = extractDocLinks_def emptyBlock_def linkedElement_def
  plainElement_def elementContainers_def linkUrl_def extractFromUrl_docx_example
  extractFromUrl_wiki_example pushNew_def

lemma linkUrl_retextElement: "linkUrl (retextElement g e) = linkUrl e"
  by (simp add: linkUrl_def retextElement_def split: option.splits)

lemma processElements_retext:
  "processElements (map (retextElement g) es) ts = processElements es ts"
  by (induction es arbitrary: ts)
     (simp_all add: linkUrl_retextElement split: option.splits sum.splits)

lemma processContainers_retext:
  "processContainers (map (retextContainer g) cs) ts = processContainers cs ts"
  by (induction cs arbitrary: ts)
     (simp_all add: retextContainer_def processElements_retext split: option.splits sum.splits)

lemma elementContainers_retextBlock:
  "elementContainers (retextBlock g b) = map (retextContainer g) (elementContainers b)"
  by (simp add: elementContainers_def retextBlock_def)

lemma processBlocks_retext:
  "processBlocks (map (retextBlock g) bs) ts = processBlocks bs ts"
  by (induction bs arbitrary: ts)
     (simp_all add: elementContainers_retextBlock processContainers_retext split: sum.splits)

text \<open>The extractor computes what the specification says.\<close>

lemma foldl_pushNew_firstSeen:
  "foldl pushNew acc xs = acc @ filter (\<lambda>y. y \<notin> set acc) (firstSeen xs)"
proof (induction xs arbitrary: acc)
  case Nil
  then show ?case by simp
next
  case (Cons x xs)
  show ?case
  proof (cases "x \<in> set acc")
    case True
    have "filter (\<lambda>y. y \<notin> set acc) (filter (\<lambda>y. y \<noteq> x) (firstSeen xs))
        = filter (\<lambda>y. y \<notin> set acc) (firstSeen xs)"
      using True by (auto intro: filter_cong)
    with True Cons.IH [of acc] show ?thesis by (simp add: pushNew_def)
  next
    case False
    have "filter (\<lambda>y. y \<notin> set (acc @ [x])) (firstSeen xs)
        = filter (\<lambda>y. y \<notin> set acc) (filter (\<lambda>y. y \<noteq> x) (firstSeen xs))"
      by (auto intro: filter_cong)
    with False Cons.IH [of "acc @ [x]"] show ?thesis by (simp add: pushNew_def)
  qed
qed

lemma extractFromUrl_spec:
  "extractFromUrl u acc =
     (if decodable u then Inr (foldl pushNew acc (urlTokens u)) else Inl URIError)"
  by (simp add: extractFromUrl_def decodable_def urlTokens_def split: option.splits)

lemma processElements_spec:
  "processElements es acc =
     (if list_all decodable (elementUrls es)
      then Inr (foldl pushNew acc (concat (map urlTokens (elementUrls es))))
      else Inl URIError)"
proof (induction es arbitrary: acc)
  case Nil
  then show ?case by (simp add: elementUrls_def)
next
  case (Cons e es)
  show ?case
  proof (cases "linkUrl e")
    case None
    with Cons.IH [of acc] show ?thesis by (simp add: elementUrls_def)
  next
    case (Some u)
    show ?thesis
    proof (cases "u = []")
      case True
      with Some Cons.IH [of acc] show ?thesis by (simp add: elementUrls_def)
    next
      case False
      with Some have urls: "elementUrls (e # es) = u # elementUrls es"
        by (simp add: elementUrls_def)
      from Some False Cons.IH [of "foldl pushNew acc (urlTokens u)"] show ?thesis
        unfolding urls by (simp add: extractFromUrl_spec)
    qed
  qed
qed

lemma containerUrls_simps:
  "containerUrls None = []"
  "elements cont = None \<Longrightarrow> containerUrls (Some cont) = []"
  "elements cont = Some es \<Longrightarrow> containerUrls (Some cont) = elementUrls es"
  by (simp_all add: containerUrls_def)

lemma processContainers_spec:
  "processContainers cs acc =
     (if list_all decodable (concat (map containerUrls cs))
      then Inr (foldl pushNew acc (concat (map urlTokens (concat (map containerUrls cs)))))
      else Inl URIError)"
proof (induction cs arbitrary: acc)
  case Nil
  then show ?case by simp
next
  case (Cons c cs)
  show ?case
  proof (cases c)
    case None
    with Cons.IH [of acc] show ?thesis by (simp add: containerUrls_simps)
  next
    case (Some cont)
    show ?thesis
    proof (cases "elements cont")
      case None
      with Some Cons.IH [of acc] show ?thesis by (simp add: containerUrls_simps)
    next
      case es: (Some es)
      from Some es Cons.IH [of "foldl pushNew acc (concat (map urlTokens (elementUrls es)))"]
      show ?thesis by (simp add: containerUrls_simps processElements_spec)
    qed
  qed
qed

lemma blockUrls_containers: "blockUrls b = concat (map containerUrls (elementContainers b))"
  by (simp add: blockUrls_def elementContainers_def)

lemma processBlocks_spec:
  "processBlocks bs acc =
     (if list_all decodable (linkUrls bs)
      then Inr (foldl pushNew acc (concat (map urlTokens (linkUrls bs))))
      else Inl URIError)"
proof (induction bs arbitrary: acc)
  case Nil
  then show ?case by (simp add: linkUrls_def)
next
  case (Cons b bs)
  from Cons.IH [of "foldl pushNew acc (concat (map urlTokens (blockUrls b)))"]
  show ?case
    by (simp add: linkUrls_def processContainers_spec blockUrls_containers [symmetric])
qed

lemma extractDocLinks_spec: "extractDocLinks bs = specDocLinks bs"
  by (simp add: extractDocLinks_def specDocLinks_def processBlocks_spec
      foldl_pushNew_firstSeen)

text \<open>Links whose path ends in a token of letters and digits.\<close>

lemma unescape_plain: "CHR ''%'' \<notin> set s \<Longrightarrow> unescape s = Some (map Inl s)"
  by (induction s) auto

lemma utf8Octets_plain: "utf8Octets (map Inl s) = Some s"
  by (induction s) simp_all

lemma decodeURIComponent_plain: "CHR ''%'' \<notin> set s \<Longrightarrow> decodeURIComponent s = Some s"
  by (simp add: decodeURIComponent_def unescape_plain utf8Octets_plain)

lemma isAlnum_not_percent: "isAlnum c \<Longrightarrow> c \<noteq> CHR ''%''"
  by (auto simp: isAlnum_def)

lemma alnum_plain: "list_all isAlnum t \<Longrightarrow> CHR ''%'' \<notin> set t"
  by (auto simp: list_all_iff dest: isAlnum_not_percent)

lemma execAll_skip: "length s \<le> n \<Longrightarrow> execAll n s = []"
proof (induction s arbitrary: n)
  case Nil
  then show ?case by simp
next
  case (Cons c cs)
  then obtain m where "n = Suc m" by (cases n) auto
  with Cons show ?case by simp
qed

lemma takeWhile_all: "list_all P t \<Longrightarrow> takeWhile P t = t"
  by (simp add: list_all_iff)

lemma execAll_docx_token:
  assumes "t \<noteq> []" "list_all isAlnum t"
  shows "execAll 0 (''https://x.feishu.cn/docx/'' @ t) = [t]"
  using assms
  by (simp add: docUrlPattern_def matchesIgnoreCase_def canonicalize_def takeWhile_all
      execAll_skip Let_def)

lemma execAll_wiki_token:
  assumes "t \<noteq> []" "list_all isAlnum t"
  shows "execAll 0 (''https://x.feishu.cn/wiki/'' @ t) = [t]"
  using assms
  by (simp add: docUrlPattern_def matchesIgnoreCase_def canonicalize_def takeWhile_all
      execAll_skip Let_def)

lemma urlTokens_docx_token:
  assumes "t \<noteq> []" "list_all isAlnum t"
  shows "decodable (''https://x.feishu.cn/docx/'' @ t)
       \<and> urlTokens (''https://x.feishu.cn/docx/'' @ t) = [t]"
proof -
  from alnum_plain [OF assms(2)] have "CHR ''%'' \<notin> set (''https://x.feishu.cn/docx/'' @ t)"
    by simp
  then have "decodeURIComponent (''https://x.feishu.cn/docx/'' @ t)
      = Some (''https://x.feishu.cn/docx/'' @ t)" by (rule decodeURIComponent_plain)
  then show ?thesis
    unfolding decodable_def urlTokens_def
    by (simp only: option.case execAll_docx_token [OF assms]) simp
qed

lemma urlTokens_wiki_token:
  assumes "t \<noteq> []" "list_all isAlnum t"
  shows "decodable (''https://x.feishu.cn/wiki/'' @ t)
       \<and> urlTokens (''https://x.feishu.cn/wiki/'' @ t) = [t]"
proof -
  from alnum_plain [OF assms(2)] have "CHR ''%'' \<notin> set (''https://x.feishu.cn/wiki/'' @ t)"
    by simp
  then have "decodeURIComponent (''https://x.feishu.cn/wiki/'' @ t)
      = Some (''https://x.feishu.cn/wiki/'' @ t)" by (rule decodeURIComponent_plain)
  then show ?thesis
    unfolding decodable_def urlTokens_def
    by (simp only: option.case execAll_wiki_token [OF assms]) simp
qed

lemma extractDocLinks_two_links:
  assumes "t \<noteq> []" "list_all isAlnum t" "u \<noteq> []" "list_all isAlnum u"
    and "linkUrls bs = [''https://x.feishu.cn/docx/'' @ t, ''https://x.feishu.cn/wiki/'' @ u]"
  shows "extractDocLinks bs = Inr (if t = u then [t] else [t, u])"
  using urlTokens_docx_token [OF assms(1,2)] urlTokens_wiki_token [OF assms(3,4)] assms(5)
  unfolding extractDocLinks_spec specDocLinks_def
  by (simp del: append.simps) auto

lemma extractDocLinks_two_links_reversed:
  assumes "t \<noteq> []" "list_all isAlnum t" "u \<noteq> []" "list_all isAlnum u"
    and "linkUrls bs = [''https://x.feishu.cn/wiki/'' @ u, ''https://x.feishu.cn/docx/'' @ t]"
  shows "extractDocLinks bs = Inr (if t = u then [t] else [u, t])"
  using urlTokens_docx_token [OF assms(1,2)] urlTokens_wiki_token [OF assms(3,4)] assms(5)
  unfolding extractDocLinks_spec specDocLinks_def
  by (simp del: append.simps) auto

section \<open>Facts about the poll cycle\<close>

lemma stateFile_sent [simp]: "stateFile (sent c w) = stateFile w"
  by (simp add: sent_def)

lemma stateFile_console_error [simp]: "stateFile (console_error l w) = stateFile w"
  by (simp add: console_error_def)

lemma calls_sent [simp]: "calls (sent c w) = calls w @ [c]"
  by (simp add: sent_def)

lemma calls_console_error [simp]: "calls (console_error l w) = calls w"
  by (simp add: console_error_def)

lemma calls_saveState [simp]: "calls (saveState s w) = calls w"
  by (simp add: saveState_def)

lemma loadState_cong: "stateFile w' = stateFile w \<Longrightarrow> loadState w' = loadState w"
  by (simp add: loadState_def)

lemma loadState_saveState [simp]: "loadState (saveState s w) = s"
  by (simp add: loadState_def saveState_def)

lemma processedIdsOf_lastPollTime [simp]:
  "processedIdsOf (s\<lparr>lastPollTime := t\<rparr>) g = processedIdsOf s g"
  by (simp add: processedIdsOf_def)

lemma processedIdsOf_upd:
  "processedIdsOf (s\<lparr>processedComments := (processedComments s)(f \<mapsto> ids)\<rparr>) g =
     (if g = f then ids else processedIdsOf s g)"
  by (simp add: processedIdsOf_def)

lemma replyRequests_append [simp]:
  "replyRequests (xs @ ys) = replyRequests xs @ replyRequests ys"
  by (simp add: replyRequests_def)

lemma replyRequests_single [simp]:
  "replyRequests [c] = (if isReplyRequest c then [c] else [])"
  by (simp add: replyRequests_def)

lemma processCommentWithAgent_effect:
  assumes "processCommentWithAgent ev t q w = (r, w')"
  shows "stateFile w' = stateFile w"
    and "calls w' = calls w @ [AgentInvoke (buildPrompt t q)]"
  using assms by (auto simp: processCommentWithAgent_def Let_def split: invoke_result.splits)

lemma replyToComment_effect:
  assumes "replyToComment ev cl f cid txt w = (ok, w')"
  shows "stateFile w' = stateFile w"
    and "calls w' = calls w @ [ReplyRequest cl f cid txt ''docx'']"
  using assms by (auto simp: replyToComment_def Let_def split: http.splits if_splits)

lemma getFileComments_effect:
  assumes "getFileComments ev cl f w = (r, w')"
  shows "stateFile w' = stateFile w"
    and "calls w' = calls w @ [CommentsRequest cl f ''docx'']"
  using assms by (auto simp: getFileComments_def Let_def split: http.splits if_splits)

lemma getTenantAccessToken_effect:
  assumes "getTenantAccessToken ev a b w = (r, w')"
  shows "stateFile w' = stateFile w"
    and "replyRequests (calls w') = replyRequests (calls w)"
    and "calls w' = calls w \<or> calls w' = calls w @ [TokenRequest a b]"
  using assms by (auto simp: getTenantAccessToken_def Let_def split: http.splits if_splits)

lemma getDocumentContent_effect:
  assumes "getDocumentContent ev cl f w = (r, w')"
  shows "stateFile w' = stateFile w"
    and "calls w' = calls w @ [BlocksRequest cl f]"
  using assms by (auto simp: getDocumentContent_def Let_def split: http.splits if_splits)

lemma getWatchedFilesFromIndex_effect:
  assumes "getWatchedFilesFromIndex ev cl f w = (r, w')"
  shows "stateFile w' = stateFile w"
    and "calls w' = calls w @ [BlocksRequest cl f]"
  using assms
  by (auto simp: getWatchedFilesFromIndex_def split: prod.splits option.splits
      dest: getDocumentContent_effect)

lemma resolveWatchedFiles_effect:
  assumes "resolveWatchedFiles ev cl config w = (r, w')"
  shows "stateFile w' = stateFile w"
    and "replyRequests (calls w') = replyRequests (calls w)"
  using assms
  by (auto simp: resolveWatchedFiles_def split: prod.splits sum.splits if_splits
      dest: getWatchedFilesFromIndex_effect)

text \<open>One comment: the list of processed identifiers stays or gains the comment's
  identifier at its end, and the state file is not touched.\<close>

lemma processComment_known:
  "comment_id c \<in> set ids \<Longrightarrow> processComment ev cl f c (ids, w) = (ids, w)"
  by (simp add: processComment_def)


lemma processComment_ids:
  assumes "processComment ev cl f c (ids, w) = (ids', w')"
  shows "ids' = ids \<or> (ids' = ids @ [comment_id c] \<and> comment_id c \<notin> set ids)"
  using assms by (auto simp: processComment_def Let_def split: if_splits prod.splits)

lemma processComment_stateFile:
  assumes "processComment ev cl f c (ids, w) = (ids', w')"
  shows "stateFile w' = stateFile w"
proof (cases "comment_id c \<in> set ids \<or> is_solved c \<or> hasOurReply c")
  case True
  with assms show ?thesis by (auto simp: processComment_def split: if_splits)
next
  case False
  obtain response w1 where
    gen: "processCommentWithAgent ev (extractTextFromContent (content c)) (quote c) w =
            (response, w1)"
    by (cases "processCommentWithAgent ev (extractTextFromContent (content c)) (quote c) w")
  obtain success w2 where
    post: "replyToComment ev cl f (comment_id c) response w1 = (success, w2)"
    by (cases "replyToComment ev cl f (comment_id c) response w1")
  from False gen post assms have "w' = w2"
    by (simp add: processComment_def split: if_splits)
  with processCommentWithAgent_effect(1) [OF gen] replyToComment_effect(1) [OF post]
  show ?thesis by simp
qed

lemma pollComments_ids:
  assumes "pollComments ev cl f cs (ids, w) = (ids', w')"
  shows "(\<exists>new. ids' = ids @ new) \<and> (distinct ids \<longrightarrow> distinct ids') \<and>
         stateFile w' = stateFile w"
  using assms
proof (induction cs arbitrary: ids w)
  case Nil
  then show ?case by simp
next
  case (Cons c cs)
  obtain ids1 w1 where step: "processComment ev cl f c (ids, w) = (ids1, w1)"
    by (cases "processComment ev cl f c (ids, w)")
  with Cons.prems have rest: "pollComments ev cl f cs (ids1, w1) = (ids', w')" by simp
  from Cons.IH [OF rest] obtain new where
    new: "ids' = ids1 @ new" and d: "distinct ids1 \<longrightarrow> distinct ids'"
    and sf: "stateFile w' = stateFile w1"
    by blast
  from processComment_ids [OF step] have
    shape: "ids1 = ids \<or> (ids1 = ids @ [comment_id c] \<and> comment_id c \<notin> set ids)" .
  have "\<exists>new'. ids' = ids @ new'" using new shape by auto
  moreover have "distinct ids \<longrightarrow> distinct ids'" using d shape by auto
  moreover have "stateFile w' = stateFile w"
    using sf processComment_stateFile [OF step] by simp
  ultimately show ?case by blast
qed

lemma pollComments_known:
  "\<forall>c\<in>set cs. comment_id c \<in> set ids \<Longrightarrow> pollComments ev cl f cs (ids, w) = (ids, w)"
  by (induction cs) (simp_all add: processComment_known)

lemma pollFile_ids:
  assumes "pollFile ev cl f (s, w) = (s', w')"
  shows "(\<exists>new. processedIdsOf s' g = processedIdsOf s g @ new)
       \<and> (distinct (processedIdsOf s g) \<longrightarrow> distinct (processedIdsOf s' g))
       \<and> stateFile w' = stateFile w"
proof (cases "getFileComments ev cl f w")
  case (Pair r w1)
  note sf1 = getFileComments_effect(1) [OF Pair]
  show ?thesis
  proof (cases r)
    case (Inl err)
    with Pair assms sf1 show ?thesis by (auto simp: pollFile_def)
  next
    case (Inr comments)
    obtain ids' w2 where
      loop: "pollComments ev cl f comments (processedIdsOf s f, w1) = (ids', w2)"
      by (cases "pollComments ev cl f comments (processedIdsOf s f, w1)")
    from pollComments_ids [OF loop] obtain new where
      "ids' = processedIdsOf s f @ new"
      "distinct (processedIdsOf s f) \<longrightarrow> distinct ids'" "stateFile w2 = stateFile w1"
      by blast
    moreover from Pair Inr loop assms have
      "s' = s\<lparr>processedComments := (processedComments s)(f \<mapsto> ids')\<rparr>" "w' = w2"
      by (auto simp: pollFile_def)
    ultimately show ?thesis using sf1 by (auto simp: processedIdsOf_upd)
  qed
qed

lemma pollFiles_ids:
  assumes "pollFiles ev cl fs (s, w) = (s', w')"
  shows "(\<exists>new. processedIdsOf s' g = processedIdsOf s g @ new)
       \<and> (distinct (processedIdsOf s g) \<longrightarrow> distinct (processedIdsOf s' g))
       \<and> stateFile w' = stateFile w"
  using assms
proof (induction fs arbitrary: s w)
  case Nil
  then show ?case by simp
next
  case (Cons f fs)
  obtain s1 w1 where step: "pollFile ev cl f (s, w) = (s1, w1)"
    by (cases "pollFile ev cl f (s, w)")
  with Cons.prems have rest: "pollFiles ev cl fs (s1, w1) = (s', w')" by simp
  from pollFile_ids [OF step, of g] Cons.IH [OF rest] show ?case by auto
qed

lemma resolveWatchedFiles_calls:
  assumes "resolveWatchedFiles ev cl config w = (r, w')"
  shows "\<exists>e. calls w' = calls w @ e"
  using assms
  by (auto simp: resolveWatchedFiles_def split: prod.splits sum.splits if_splits
      dest: getWatchedFilesFromIndex_effect(2))

text \<open>How a cycle ends: either it leaves the state file as it was and posts nothing,
  or it has resolved a list of documents that is not empty, polled them and saved.\<close>

lemma pollDocumentComments_cases:
  assumes "pollDocumentComments ev config fc w = (r, w')"
  obtains (kept) "stateFile w' = stateFile w"
      "replyRequests (calls w') = replyRequests (calls w)"
      "\<exists>e. calls w' = calls w @ e"
  | (saved) token files w2 s3 w3 where
      "files \<noteq> []" "stateFile w2 = stateFile w"
      "replyRequests (calls w2) = replyRequests (calls w)"
      "pollFiles ev token files (loadState w, w2) = (s3, w3)"
      "w' = saveState (s3\<lparr>lastPollTime := dateNow ev (calls w3)\<rparr>) w3"
      "\<exists>e. calls w2 = calls w @ e"
proof (cases "enabled config")
  case False
  with assms have "w' = w" by (simp add: pollDocumentComments_def)
  then show thesis by (simp add: kept)
next
  case True
  obtain t w1 where tok: "getTenantAccessToken ev (appId fc) (appSecret fc) w = (t, w1)"
    by (cases "getTenantAccessToken ev (appId fc) (appSecret fc) w")
  note sf1 = getTenantAccessToken_effect(1) [OF tok]
  note rr1 = getTenantAccessToken_effect(2) [OF tok]
  from getTenantAccessToken_effect(3) [OF tok] have cg1: "\<exists>e. calls w1 = calls w @ e"
    by auto
  from assms True tok have body:
    "(case t of
        Inl err \<Rightarrow> (Inl err, w1)
      | Inr token \<Rightarrow>
          (case resolveWatchedFiles ev token config w1 of
             (Inl err, w2) \<Rightarrow> (Inl err, w2)
           | (Inr files, w2) \<Rightarrow>
               if files = [] then (Inr (), w2)
               else (case pollFiles ev token files (loadState w, w2) of
                       (state', w3) \<Rightarrow>
                         (Inr (),
                          saveState (state'\<lparr>lastPollTime := dateNow ev (calls w3)\<rparr>) w3))))
     = (r, w')"
    unfolding pollDocumentComments_def Let_def by simp
  show thesis
  proof (cases t)
    case (Inl err)
    with body have "w' = w1" by simp
    with sf1 rr1 cg1 show thesis by (simp add: kept)
  next
    case (Inr token)
    obtain fs w2 where res: "resolveWatchedFiles ev token config w1 = (fs, w2)"
      by (cases "resolveWatchedFiles ev token config w1")
    from resolveWatchedFiles_effect(1) [OF res] sf1 have sf2: "stateFile w2 = stateFile w"
      by simp
    from resolveWatchedFiles_effect(2) [OF res] rr1 have
      rr2: "replyRequests (calls w2) = replyRequests (calls w)" by simp
    from resolveWatchedFiles_calls [OF res] cg1 have cg2: "\<exists>e. calls w2 = calls w @ e"
      by auto
    show thesis
    proof (cases fs)
      case (Inl err)
      with body Inr res have "w' = w2" by simp
      with sf2 rr2 cg2 show thesis by (simp add: kept)
    next
      case files: (Inr files)
      show thesis
      proof (cases "files = []")
        case True
        with body Inr res files have "w' = w2" by simp
        with sf2 rr2 cg2 show thesis by (simp add: kept)
      next
        case False
        obtain s3 w3 where loop: "pollFiles ev token files (loadState w, w2) = (s3, w3)"
          by (cases "pollFiles ev token files (loadState w, w2)")
        with body Inr res files False have
          "w' = saveState (s3\<lparr>lastPollTime := dateNow ev (calls w3)\<rparr>) w3" by simp
        with False sf2 rr2 loop show thesis using cg2 by (rule saved)
      qed
    qed
  qed
qed

lemma pollDocumentComments_ids:
  assumes "pollDocumentComments ev config fc w = (r, w')"
  shows "(\<exists>new. processedIdsOf (loadState w') g = processedIdsOf (loadState w) g @ new)
       \<and> (distinct (processedIdsOf (loadState w) g) \<longrightarrow>
            distinct (processedIdsOf (loadState w') g))"
  using assms
proof (cases rule: pollDocumentComments_cases)
  case kept
  from kept(1) have "loadState w' = loadState w" by (rule loadState_cong)
  then show ?thesis by simp
next
  case (saved token files w2 s3 w3)
  from saved(5) have eq: "processedIdsOf (loadState w') g = processedIdsOf s3 g" by simp
  from pollFiles_ids [OF saved(4), of g] have
    "\<exists>new. processedIdsOf s3 g = processedIdsOf (loadState w) g @ new"
    "distinct (processedIdsOf (loadState w) g) \<longrightarrow> distinct (processedIdsOf s3 g)"
    by blast+
  then show ?thesis unfolding eq by blast
qed






text \<open>A cycle that meets only comments it has recorded changes no list and posts
  nothing.\<close>

lemma pollFile_known:
  assumes "\<forall>cs. fst (getFileComments ev cl f w) = Inr cs \<longrightarrow>
             (\<forall>c\<in>set cs. comment_id c \<in> set (processedIdsOf s f))"
  shows "processedIdsOf (fst (pollFile ev cl f (s, w))) g = processedIdsOf s g
       \<and> replyRequests (calls (snd (pollFile ev cl f (s, w)))) = replyRequests (calls w)"
proof (cases "getFileComments ev cl f w")
  case (Pair r w1)
  from getFileComments_effect(2) [OF Pair] have
    c1: "replyRequests (calls w1) = replyRequests (calls w)"
    by simp
  show ?thesis
  proof (cases r)
    case (Inl err)
    with Pair c1 show ?thesis by (simp add: pollFile_def)
  next
    case (Inr comments)
    with Pair assms have "\<forall>c\<in>set comments. comment_id c \<in> set (processedIdsOf s f)"
      by simp
    then have
      "pollComments ev cl f comments (processedIdsOf s f, w1) = (processedIdsOf s f, w1)"
      by (rule pollComments_known)
    with Pair Inr c1 show ?thesis by (simp add: pollFile_def processedIdsOf_upd)
  qed
qed

text \<open>The requests sent only grow, and every document polled adds its comment request.\<close>

lemma processComment_calls:
  "\<exists>e. calls (snd (processComment ev cl f c (ids, w))) = calls w @ e"
proof (cases "comment_id c \<in> set ids \<or> is_solved c \<or> hasOurReply c")
  case True
  then show ?thesis by (auto simp: processComment_def)
next
  case False
  obtain response w1 where
    gen: "processCommentWithAgent ev (extractTextFromContent (content c)) (quote c) w =
            (response, w1)"
    by (cases "processCommentWithAgent ev (extractTextFromContent (content c)) (quote c) w")
  obtain success w2 where
    post: "replyToComment ev cl f (comment_id c) response w1 = (success, w2)"
    by (cases "replyToComment ev cl f (comment_id c) response w1")
  from False gen post have "snd (processComment ev cl f c (ids, w)) = w2"
    by (simp add: processComment_def)
  with processCommentWithAgent_effect(2) [OF gen] replyToComment_effect(2) [OF post]
  show ?thesis by simp
qed

lemma pollComments_calls:
  "\<exists>e. calls (snd (pollComments ev cl f cs (ids, w))) = calls w @ e"
proof (induction cs arbitrary: ids w)
  case Nil
  then show ?case by simp
next
  case (Cons c cs)
  obtain ids1 w1 where step: "processComment ev cl f c (ids, w) = (ids1, w1)"
    by (cases "processComment ev cl f c (ids, w)")
  from processComment_calls [of ev cl f c ids w] step obtain e1 where
    "calls w1 = calls w @ e1" by auto
  moreover from Cons.IH [of ids1 w1] obtain e2 where
    "calls (snd (pollComments ev cl f cs (ids1, w1))) = calls w1 @ e2" by blast
  ultimately show ?case using step by simp
qed

lemma pollFile_calls:
  "\<exists>e. calls (snd (pollFile ev cl f (s, w))) = calls w @ CommentsRequest cl f ''docx'' # e"
proof (cases "getFileComments ev cl f w")
  case (Pair r w1)
  note c1 = getFileComments_effect(2) [OF Pair]
  show ?thesis
  proof (cases r)
    case (Inl err)
    with Pair c1 show ?thesis by (simp add: pollFile_def)
  next
    case (Inr comments)
    from pollComments_calls [of ev cl f comments "processedIdsOf s f" w1] obtain e where
      "calls (snd (pollComments ev cl f comments (processedIdsOf s f, w1))) = calls w1 @ e"
      by blast
    with Pair Inr c1 show ?thesis by (auto simp: pollFile_def split: prod.splits)
  qed
qed

lemma pollFiles_calls:
  "\<exists>e. calls (snd (pollFiles ev cl fs (s, w))) = calls w @ e"
proof (induction fs arbitrary: s w)
  case Nil
  then show ?case by simp
next
  case (Cons f fs)
  obtain s1 w1 where step: "pollFile ev cl f (s, w) = (s1, w1)"
    by (cases "pollFile ev cl f (s, w)")
  from pollFile_calls [of ev cl f s w] step obtain e1 where
    "calls w1 = calls w @ CommentsRequest cl f ''docx'' # e1" by auto
  moreover from Cons.IH [of s1 w1] obtain e2 where
    "calls (snd (pollFiles ev cl fs (s1, w1))) = calls w1 @ e2" by blast
  ultimately show ?case using step by simp
qed

lemma pollFile_known_trace:
  assumes known: "\<forall>pre cl f ft post r items.
        F = B @ pre @ CommentsRequest cl f ft # post \<longrightarrow>
        getComments ev (B @ pre) cl f = Responds r \<longrightarrow> code r = 0 \<longrightarrow>
        payload r = Some items \<longrightarrow>
        (\<forall>c\<in>set items. comment_id c \<in> set (processedIdsOf s0 f))"
    and base: "calls w = B @ p"
    and final: "F = calls (snd (pollFile ev cl f (s, w))) @ q"
    and same: "processedIdsOf s f = processedIdsOf s0 f"
  shows "processedIdsOf (fst (pollFile ev cl f (s, w))) g = processedIdsOf s g
       \<and> replyRequests (calls (snd (pollFile ev cl f (s, w)))) = replyRequests (calls w)"
proof (rule pollFile_known, intro allI impI ballI)
  fix cs c
  assume got: "fst (getFileComments ev cl f w) = Inr cs" and c: "c \<in> set cs"
  from pollFile_calls [of ev cl f s w] obtain e where
    "calls (snd (pollFile ev cl f (s, w))) = calls w @ CommentsRequest cl f ''docx'' # e"
    by blast
  with base final have F: "F = B @ p @ CommentsRequest cl f ''docx'' # (e @ q)" by simp
  from got c obtain r where
    r: "getComments ev (B @ p) cl f = Responds r" "code r = 0" "payload r = Some cs"
    using base
    by (auto simp: getFileComments_def Let_def split: http.splits if_splits option.splits)
  from known F r c have "comment_id c \<in> set (processedIdsOf s0 f)" by blast
  with same show "comment_id c \<in> set (processedIdsOf s f)" by simp
qed

lemma pollFiles_known_trace:
  assumes known: "\<forall>pre cl f ft post r items.
        F = B @ pre @ CommentsRequest cl f ft # post \<longrightarrow>
        getComments ev (B @ pre) cl f = Responds r \<longrightarrow> code r = 0 \<longrightarrow>
        payload r = Some items \<longrightarrow>
        (\<forall>c\<in>set items. comment_id c \<in> set (processedIdsOf s0 f))"
    and base: "calls w = B @ p"
    and final: "F = calls (snd (pollFiles ev cl fs (s, w))) @ q"
    and same: "\<forall>g. processedIdsOf s g = processedIdsOf s0 g"
  shows "(\<forall>g. processedIdsOf (fst (pollFiles ev cl fs (s, w))) g = processedIdsOf s0 g)
       \<and> replyRequests (calls (snd (pollFiles ev cl fs (s, w)))) = replyRequests (calls w)"
  using base final same
proof (induction fs arbitrary: s w p)
  case Nil
  then show ?case by simp
next
  case (Cons f fs)
  obtain s1 w1 where step: "pollFile ev cl f (s, w) = (s1, w1)"
    by (cases "pollFile ev cl f (s, w)")
  from pollFiles_calls [of ev cl fs s1 w1] obtain e2 where
    e2: "calls (snd (pollFiles ev cl fs (s1, w1))) = calls w1 @ e2" by blast
  with Cons.prems(2) step have F1: "F = calls (snd (pollFile ev cl f (s, w))) @ (e2 @ q)"
    by simp
  from Cons.prems(3) have "processedIdsOf s f = processedIdsOf s0 f" by simp
  from pollFile_known_trace [OF known Cons.prems(1) F1 this] step have
    ids1: "\<forall>g. processedIdsOf s1 g = processedIdsOf s g"
    and quiet: "replyRequests (calls w1) = replyRequests (calls w)" by simp_all
  from ids1 Cons.prems(3) have same1: "\<forall>g. processedIdsOf s1 g = processedIdsOf s0 g" by simp
  from pollFile_calls [of ev cl f s w] step Cons.prems(1) obtain p1 where
    base1: "calls w1 = B @ p1" by auto
  from Cons.prems(2) step have "F = calls (snd (pollFiles ev cl fs (s1, w1))) @ q" by simp
  from Cons.IH [OF base1 this same1] step quiet show ?case by simp
qed


lemma pollDocumentComments_calls:
  "\<exists>e. calls (snd (pollDocumentComments ev config fc w)) = calls w @ e"
proof -
  obtain r w' where run: "pollDocumentComments ev config fc w = (r, w')"
    by (cases "pollDocumentComments ev config fc w")
  from run have "\<exists>e. calls w' = calls w @ e"
  proof (cases rule: pollDocumentComments_cases)
    case kept
    then show ?thesis by simp
  next
    case (saved token files w2 s3 w3)
    from pollFiles_calls [of ev token files "loadState w" w2] saved(4) obtain e2 where
      "calls w3 = calls w2 @ e2" by auto
    with saved(5,6) show ?thesis by auto
  qed
  with run show ?thesis by simp
qed

lemma pollDocumentComments_known_trace:
  assumes known: "\<forall>pre cl f ft post r items.
        F = B @ pre @ CommentsRequest cl f ft # post \<longrightarrow>
        getComments ev (B @ pre) cl f = Responds r \<longrightarrow> code r = 0 \<longrightarrow>
        payload r = Some items \<longrightarrow>
        (\<forall>c\<in>set items. comment_id c \<in> set (processedIdsOf s0 f))"
    and base: "calls w = B @ p"
    and final: "F = calls (snd (pollDocumentComments ev config fc w)) @ q"
    and same: "\<forall>g. processedIdsOf (loadState w) g = processedIdsOf s0 g"
  shows "(\<forall>g. processedIdsOf (loadState (snd (pollDocumentComments ev config fc w))) g
              = processedIdsOf s0 g)
       \<and> replyRequests (calls (snd (pollDocumentComments ev config fc w)))
           = replyRequests (calls w)"
proof -
  obtain r w' where run: "pollDocumentComments ev config fc w = (r, w')"
    by (cases "pollDocumentComments ev config fc w")
  from run have "(\<forall>g. processedIdsOf (loadState w') g = processedIdsOf s0 g)
       \<and> replyRequests (calls w') = replyRequests (calls w)"
  proof (cases rule: pollDocumentComments_cases)
    case kept
    from kept(1) have "loadState w' = loadState w" by (rule loadState_cong)
    with kept(2) same show ?thesis by simp
  next
    case (saved token files w2 s3 w3)
    from saved(5) have eq: "\<And>g. processedIdsOf (loadState w') g = processedIdsOf s3 g"
      and ceq: "calls w' = calls w3" by simp_all
    from saved(6) base obtain p2 where base2: "calls w2 = B @ p2" by auto
    from final run ceq saved(4) have
      final2: "F = calls (snd (pollFiles ev token files (loadState w, w2))) @ q" by simp
    from pollFiles_known_trace [OF known base2 final2 same] saved(4) saved(3)
    show ?thesis unfolding eq ceq by simp
  qed
  with run show ?thesis by simp
qed

lemma doPoll_stateFile:
  "stateFile (doPoll ev config fc w) = stateFile (snd (pollDocumentComments ev config fc w))"
  by (simp add: doPoll_def split: prod.splits sum.splits)

lemma pollDocumentComments_stamp:
  "stateFile (snd (pollDocumentComments ev config fc w)) = stateFile w
   \<or> (\<exists>s. stateFile (snd (pollDocumentComments ev config fc w)) = Parsed s
          \<and> lastPollTime s = dateNow ev (calls (snd (pollDocumentComments ev config fc w))))"
proof -
  obtain r w' where run: "pollDocumentComments ev config fc w = (r, w')"
    by (cases "pollDocumentComments ev config fc w")
  from run have "stateFile w' = stateFile w
     \<or> (\<exists>s. stateFile w' = Parsed s \<and> lastPollTime s = dateNow ev (calls w'))"
  proof (cases rule: pollDocumentComments_cases)
    case kept
    then show ?thesis by simp
  next
    case (saved token files w2 s3 w3)
    from saved(5) show ?thesis by (simp add: saveState_def)
  qed
  with run show ?thesis by simp
qed

lemma pollDocumentComments_completes:
  assumes "enabled config"
    and "getTenantAccessToken ev (appId fc) (appSecret fc) w = (Inr token, w1)"
    and "resolveWatchedFiles ev token config w1 = (Inr files, w2)"
    and "files \<noteq> []"
  shows "\<exists>s. stateFile (snd (pollDocumentComments ev config fc w)) = Parsed s
          \<and> lastPollTime s = dateNow ev (calls (snd (pollDocumentComments ev config fc w)))"
  using assms
  by (simp add: pollDocumentComments_def Let_def saveState_def split: prod.splits)

lemma doPoll_observed:
  "loadState (doPoll ev config fc w) = loadState (snd (pollDocumentComments ev config fc w))"
  "calls (doPoll ev config fc w) = calls (snd (pollDocumentComments ev config fc w))"
  by (simp_all add: doPoll_def loadState_def split: prod.splits sum.splits)

lemmas example_defs = okData_def failedData_def exampleComment_def exampleReply_def
  exampleEnv_def rejectingPosts_def failingFetch_def refusingFetch_def freshWorld_def
  exampleConfig_def
  exampleFeishu_def

lemmas cycle_defs = doPoll_def pollDocumentComments_def resolveWatchedFiles_def
  getTenantAccessToken_def getWatchedFilesFromIndex_def getDocumentContent_def pollFile_def
  getFileComments_def processComment_def processCommentWithAgent_def replyToComment_def
  hasOurReply_def processedIdsOf_def loadState_def saveState_def truthy_def sent_def
  console_error_def extractTextFromContent_def replyRequests_def Let_def

section \<open>The claims\<close>

subsection \<open>Classification of a comment\<close>

text \<open>
  The loop body tests, in this order: the identifier is in the processed list (nothing
  changes, nothing is sent); the comment is solved (recorded, nothing sent); some reply
  has the author \<^verbatim>\<open>"bot"\<close> (recorded, nothing sent); otherwise one agent invocation and one
  reply request are sent, and the identifier is recorded when the request succeeds.
\<close>

lemma processComment_outcomes:
  "processComment ev cl f c (ids, w) =
     (if comment_id c \<in> set ids then (ids, w)
      else if is_solved c then (ids @ [comment_id c], w)
      else if list_ex (\<lambda>r. user_id r = ''bot'') (case reply_list c of None \<Rightarrow> [] | Some rs \<Rightarrow> rs)
        then (ids @ [comment_id c], w)
      else
        (let gen = processCommentWithAgent ev (extractTextFromContent (content c)) (quote c) w;
             post = replyToComment ev cl f (comment_id c) (fst gen) (snd gen)
         in (if fst post then ids @ [comment_id c] else ids,
             w\<lparr>calls := calls w @
                  [AgentInvoke (buildPrompt (extractTextFromContent (content c)) (quote c)),
                   ReplyRequest cl f (comment_id c) (fst gen) ''docx''],
               console := console (snd post)\<rparr>)))"
proof -
  obtain response w1 where
    gen: "processCommentWithAgent ev (extractTextFromContent (content c)) (quote c) w =
            (response, w1)"
    by (cases "processCommentWithAgent ev (extractTextFromContent (content c)) (quote c) w")
  obtain success w2 where
    post: "replyToComment ev cl f (comment_id c) response w1 = (success, w2)"
    by (cases "replyToComment ev cl f (comment_id c) response w1")
  have w2: "w2 = w\<lparr>calls := calls w @
                  [AgentInvoke (buildPrompt (extractTextFromContent (content c)) (quote c)),
                   ReplyRequest cl f (comment_id c) response ''docx''],
               console := console w2\<rparr>"
    using gen post
    by (auto simp: processCommentWithAgent_def replyToComment_def Let_def sent_def
        console_error_def split: invoke_result.splits http.splits if_splits)
  show ?thesis
    using gen post w2
    by (simp add: processComment_def hasOurReply_def Let_def split: option.splits)
qed

text \<open>
  Claim C1. Each comment gets the first matching of four outcomes: already processed
  (skipped, no state change), solved (recorded, no reply), a reply by this agent's
  identity in its reply list (recorded, no new reply), otherwise a reply is generated and
  posted. The code's third test looks for the author \<^verbatim>\<open>"bot"\<close> and for no identity of the
  agent. At the comment \<open>c1\<close>, not processed and not solved, whose reply list holds a reply
  by the author \<open>ou_agent\<close>, the third outcome does not apply: the loop body invokes the
  agent and posts a reply.
\<close>

theorem processComment_reply_by_other_identity:
  "processComment (exampleEnv []) ''t-1'' ''docA''
     ((exampleComment ''c1'')\<lparr>reply_list := Some [exampleReply ''ou_agent'']\<rparr>)
     ([], freshWorld)
   = ([''c1''],
      freshWorld\<lparr>calls := [AgentInvoke (buildPrompt ''why?'' None),
                           ReplyRequest ''t-1'' ''docA'' ''c1'' ''ok'' ''docx'']\<rparr>)"
  by (simp add: cycle_defs example_defs)

subsection \<open>Recording a reply\<close>



subsection \<open>The processed lists only grow\<close>

text \<open>
  Claim C3. For every document token and every poll cycle, the identifiers recorded for
  the document at the end of the cycle are those recorded at the start followed by new
  ones, so the set at the end includes the set at the start; and when no identifier
  occurs twice in the document's list at the start, none occurs twice at the end. A
  cycle that starts with no state file, or with one that cannot be parsed, starts from
  empty lists and so ends with lists in which no identifier occurs twice.
\<close>

theorem processed_ids_only_grow:
  "(\<exists>new. processedIdsOf (loadState (snd (pollDocumentComments ev config fc w))) f
            = processedIdsOf (loadState w) f @ new)
   \<and> set (processedIdsOf (loadState w) f)
       \<subseteq> set (processedIdsOf (loadState (snd (pollDocumentComments ev config fc w))) f)
   \<and> (distinct (processedIdsOf (loadState w) f) \<longrightarrow>
       distinct (processedIdsOf (loadState (snd (pollDocumentComments ev config fc w))) f))
   \<and> (stateFile w = Missing \<or> stateFile w = Unparseable \<longrightarrow>
       distinct (processedIdsOf (loadState (snd (pollDocumentComments ev config fc w))) f))"
proof -
  obtain r w' where run: "pollDocumentComments ev config fc w = (r, w')"
    by (cases "pollDocumentComments ev config fc w")
  from pollDocumentComments_ids [OF run, of f] obtain new where
    grow: "processedIdsOf (loadState w') f = processedIdsOf (loadState w) f @ new"
    and once: "distinct (processedIdsOf (loadState w) f) \<longrightarrow>
               distinct (processedIdsOf (loadState w') f)"
    by blast
  from grow have
    "set (processedIdsOf (loadState w) f) \<subseteq> set (processedIdsOf (loadState w') f)"
    by simp
  moreover have "stateFile w = Missing \<or> stateFile w = Unparseable \<longrightarrow>
      distinct (processedIdsOf (loadState w) f)"
    by (auto simp: loadState_def processedIdsOf_def)
  ultimately show ?thesis using grow once run by auto
qed

text \<open>An instance: no state file, and the service lists \<open>c1\<close> twice and the solved \<open>c2\<close>.\<close>

theorem processed_ids_only_grow_witness:
  "distinct (processedIdsOf (loadState freshWorld) ''docA'')
   \<and> processedIdsOf (loadState (snd (pollDocumentComments
        (exampleEnv [exampleComment ''c1'', exampleComment ''c1'',
                     (exampleComment ''c2'')\<lparr>is_solved := True\<rparr>])
        exampleConfig exampleFeishu freshWorld))) ''docA'' = [''c1'', ''c2'']
   \<and> distinct (processedIdsOf (loadState (snd (pollDocumentComments
        (exampleEnv [exampleComment ''c1'', exampleComment ''c1'',
                     (exampleComment ''c2'')\<lparr>is_solved := True\<rparr>])
        exampleConfig exampleFeishu freshWorld))) ''docA'')"
  using processed_ids_only_grow [of
      "exampleEnv [exampleComment ''c1'', exampleComment ''c1'',
                   (exampleComment ''c2'')\<lparr>is_solved := True\<rparr>]"
      exampleConfig exampleFeishu freshWorld "''docA''"]
  by (simp add: cycle_defs example_defs)

subsection \<open>A reply of the agent's own\<close>

text \<open>
  Claim C4. A comment that already has a reply by this agent's identity is recorded as
  processed and gets no new reply, so that a comment answered in a cycle that crashed
  before saving the state is not answered twice. The code tests the author of a reply
  against \<^verbatim>\<open>"bot"\<close>, with the remark that this needs to be the actual bot user id. With the
  state lost (no state file) and the earlier reply on \<open>c1\<close> carrying the author \<open>ou_agent\<close>,
  the test fails and the next cycle posts a second reply.
\<close>

theorem second_reply_after_lost_state:
  "hasOurReply ((exampleComment ''c1'')\<lparr>reply_list := Some [exampleReply ''ou_agent'']\<rparr>)
     = False
   \<and> replyRequests (calls (doPoll
       (exampleEnv [(exampleComment ''c1'')\<lparr>reply_list := Some [exampleReply ''ou_agent'']\<rparr>])
       exampleConfig exampleFeishu freshWorld))
     = [ReplyRequest ''t-1'' ''docA'' ''c1'' ''ok'' ''docx'']"
  by (simp add: cycle_defs example_defs)

subsection \<open>Cycles that meet no new comment\<close>

text \<open>
  Claim C5, amended. When every comment that the service lists in answer to a comment
  request of two consecutive poll cycles is already recorded as processed, the two
  cycles leave the processed identifiers of every document as they were and post no
  reply. The state file itself may change: every cycle either leaves the file as it is
  or saves a state whose \<open>lastPollTime\<close> is the time at the end of the cycle, and a cycle
  that reaches its end (the plugin enabled, the token obtained, a list of documents that
  is not empty) does save.
\<close>

theorem idle_cycles_keep_processed_ids:
  assumes "\<forall>pre cl f ft post r items.
        calls (doPoll ev config fc (doPoll ev config fc w))
          = calls w @ pre @ CommentsRequest cl f ft # post \<longrightarrow>
        getComments ev (calls w @ pre) cl f = Responds r \<longrightarrow> code r = 0 \<longrightarrow>
        payload r = Some items \<longrightarrow>
        (\<forall>c\<in>set items. comment_id c \<in> set (processedIdsOf (loadState w) f))"
  shows "(\<forall>g. processedIdsOf (loadState (doPoll ev config fc (doPoll ev config fc w))) g
              = processedIdsOf (loadState w) g)
       \<and> replyRequests (calls (doPoll ev config fc (doPoll ev config fc w)))
           = replyRequests (calls w)
       \<and> (\<forall>v. stateFile (doPoll ev config fc v) = stateFile v
              \<or> (\<exists>s. stateFile (doPoll ev config fc v) = Parsed s
                     \<and> lastPollTime s = dateNow ev (calls (doPoll ev config fc v))))
       \<and> (\<forall>v token v1 files v2.
             enabled config \<and>
             getTenantAccessToken ev (appId fc) (appSecret fc) v = (Inr token, v1) \<and>
             resolveWatchedFiles ev token config v1 = (Inr files, v2) \<and> files \<noteq> [] \<longrightarrow>
             (\<exists>s. stateFile (doPoll ev config fc v) = Parsed s
                   \<and> lastPollTime s = dateNow ev (calls (doPoll ev config fc v))))"
proof -
  let ?w1 = "doPoll ev config fc w"
  let ?w2 = "doPoll ev config fc ?w1"
  let ?F = "calls ?w2"
  from pollDocumentComments_calls [of ev config fc ?w1] obtain e2 where
    e2: "?F = calls ?w1 @ e2" by (auto simp: doPoll_observed)
  from pollDocumentComments_calls [of ev config fc w] obtain e1 where
    e1: "calls ?w1 = calls w @ e1" by (auto simp: doPoll_observed)
  have base0: "calls w = calls w @ []" by simp
  from e2 have final1: "?F = calls (snd (pollDocumentComments ev config fc w)) @ e2"
    by (simp add: doPoll_observed)
  have same0: "\<forall>g. processedIdsOf (loadState w) g = processedIdsOf (loadState w) g" by simp
  from pollDocumentComments_known_trace [OF assms base0 final1 same0] have
    first: "\<forall>g. processedIdsOf (loadState ?w1) g = processedIdsOf (loadState w) g"
      "replyRequests (calls ?w1) = replyRequests (calls w)"
    by (simp_all add: doPoll_observed)
  have final2: "?F = calls (snd (pollDocumentComments ev config fc ?w1)) @ []"
    by (simp add: doPoll_observed)
  from pollDocumentComments_known_trace [OF assms e1 final2 first(1)] first(2) have
    ids: "\<forall>g. processedIdsOf (loadState ?w2) g = processedIdsOf (loadState w) g"
    and quiet: "replyRequests (calls ?w2) = replyRequests (calls w)"
    by (simp_all add: doPoll_observed)
  have stamp: "\<forall>v. stateFile (doPoll ev config fc v) = stateFile v
              \<or> (\<exists>s. stateFile (doPoll ev config fc v) = Parsed s
                     \<and> lastPollTime s = dateNow ev (calls (doPoll ev config fc v)))"
    using pollDocumentComments_stamp [of ev config fc]
    by (simp add: doPoll_stateFile doPoll_observed)
  have ends: "\<forall>v token v1 files v2.
             enabled config \<and>
             getTenantAccessToken ev (appId fc) (appSecret fc) v = (Inr token, v1) \<and>
             resolveWatchedFiles ev token config v1 = (Inr files, v2) \<and> files \<noteq> [] \<longrightarrow>
             (\<exists>s. stateFile (doPoll ev config fc v) = Parsed s
                   \<and> lastPollTime s = dateNow ev (calls (doPoll ev config fc v)))"
    using pollDocumentComments_completes [of config ev fc]
    by (simp add: doPoll_stateFile doPoll_observed)
  from ids quiet stamp ends show ?thesis by blast
qed

text \<open>An instance: the state file records \<open>c1\<close> for \<open>docA\<close>, the only document watched, and
  the service lists \<open>c1\<close>. The two cycles send one token request and two comment requests;
  the first cycle saves the time 1000.\<close>

theorem idle_cycles_keep_processed_ids_witness:
  "calls (doPoll (exampleEnv [exampleComment ''c1'']) exampleConfig exampleFeishu
      (doPoll (exampleEnv [exampleComment ''c1'']) exampleConfig exampleFeishu
        (freshWorld\<lparr>stateFile := Parsed \<lparr>lastPollTime = 0,
           processedComments = [''docA'' \<mapsto> [''c1'']]\<rparr>\<rparr>)))
     = [TokenRequest ''cli_app'' ''secret'', CommentsRequest ''t-1'' ''docA'' ''docx'',
        CommentsRequest ''t-1'' ''docA'' ''docx'']
   \<and> getComments (exampleEnv [exampleComment ''c1'']) [TokenRequest ''cli_app'' ''secret'']
        ''t-1'' ''docA'' = Responds (okData (Some [exampleComment ''c1'']))
   \<and> processedIdsOf (loadState (freshWorld\<lparr>stateFile := Parsed \<lparr>lastPollTime = 0,
           processedComments = [''docA'' \<mapsto> [''c1'']]\<rparr>\<rparr>)) ''docA'' = [''c1'']
   \<and> processedIdsOf (loadState (doPoll (exampleEnv [exampleComment ''c1'']) exampleConfig
        exampleFeishu (doPoll (exampleEnv [exampleComment ''c1'']) exampleConfig exampleFeishu
          (freshWorld\<lparr>stateFile := Parsed \<lparr>lastPollTime = 0,
             processedComments = [''docA'' \<mapsto> [''c1'']]\<rparr>\<rparr>)))) ''docA'' = [''c1'']
   \<and> replyRequests (calls (doPoll (exampleEnv [exampleComment ''c1'']) exampleConfig
        exampleFeishu (doPoll (exampleEnv [exampleComment ''c1'']) exampleConfig exampleFeishu
          (freshWorld\<lparr>stateFile := Parsed \<lparr>lastPollTime = 0,
             processedComments = [''docA'' \<mapsto> [''c1'']]\<rparr>\<rparr>)))) = []
   \<and> (\<exists>s. stateFile (doPoll (exampleEnv [exampleComment ''c1'']) exampleConfig exampleFeishu
          (freshWorld\<lparr>stateFile := Parsed \<lparr>lastPollTime = 0,
             processedComments = [''docA'' \<mapsto> [''c1'']]\<rparr>\<rparr>)) = Parsed s
        \<and> lastPollTime s = 1000)"
proof -
  let ?ev = "exampleEnv [exampleComment ''c1'']"
  let ?w = "freshWorld\<lparr>stateFile := Parsed \<lparr>lastPollTime = 0,
             processedComments = [''docA'' \<mapsto> [''c1'']]\<rparr>\<rparr>"
  have run: "calls (doPoll ?ev exampleConfig exampleFeishu
                (doPoll ?ev exampleConfig exampleFeishu ?w))
     = [TokenRequest ''cli_app'' ''secret'', CommentsRequest ''t-1'' ''docA'' ''docx'',
        CommentsRequest ''t-1'' ''docA'' ''docx'']"
    by (simp add: cycle_defs example_defs)
  have known: "\<forall>pre cl f ft post r items.
        calls (doPoll ?ev exampleConfig exampleFeishu (doPoll ?ev exampleConfig exampleFeishu ?w))
          = calls ?w @ pre @ CommentsRequest cl f ft # post \<longrightarrow>
        getComments ?ev (calls ?w @ pre) cl f = Responds r \<longrightarrow> code r = 0 \<longrightarrow>
        payload r = Some items \<longrightarrow>
        (\<forall>c\<in>set items. comment_id c \<in> set (processedIdsOf (loadState ?w) f))"
  proof (intro allI impI ballI)
    fix pre cl f ft post r items c
    assume sent: "calls (doPoll ?ev exampleConfig exampleFeishu
          (doPoll ?ev exampleConfig exampleFeishu ?w))
          = calls ?w @ pre @ CommentsRequest cl f ft # post"
      and r: "getComments ?ev (calls ?w @ pre) cl f = Responds r" "payload r = Some items"
      and c: "c \<in> set items"
    from sent have "CommentsRequest cl f ft \<in> set (calls (doPoll ?ev exampleConfig exampleFeishu
          (doPoll ?ev exampleConfig exampleFeishu ?w)))" by simp
    then have f: "f = ''docA''" unfolding run by simp
    from r c have "comment_id c = ''c1''" by (auto simp: example_defs)
    with f show "comment_id c \<in> set (processedIdsOf (loadState ?w) f)"
      by (simp add: processedIdsOf_def loadState_def)
  qed
  have tok: "getTenantAccessToken ?ev (appId exampleFeishu) (appSecret exampleFeishu) ?w
      = (Inr ''t-1'', ?w\<lparr>accessToken := Some ''t-1'', tokenExpiry := 7141000,
                          calls := [TokenRequest ''cli_app'' ''secret'']\<rparr>)"
    by (simp add: getTenantAccessToken_def sent_def truthy_def Let_def example_defs)
  have res: "resolveWatchedFiles ?ev ''t-1'' exampleConfig
       (?w\<lparr>accessToken := Some ''t-1'', tokenExpiry := 7141000,
           calls := [TokenRequest ''cli_app'' ''secret'']\<rparr>)
      = (Inr [''docA''], ?w\<lparr>accessToken := Some ''t-1'', tokenExpiry := 7141000,
                          calls := [TokenRequest ''cli_app'' ''secret'']\<rparr>)"
    by (simp add: resolveWatchedFiles_def truthy_def example_defs)
  from idle_cycles_keep_processed_ids [OF known] have
    inst: "(\<forall>g. processedIdsOf (loadState (doPoll ?ev exampleConfig exampleFeishu
                (doPoll ?ev exampleConfig exampleFeishu ?w))) g = processedIdsOf (loadState ?w) g)"
      "replyRequests (calls (doPoll ?ev exampleConfig exampleFeishu
                (doPoll ?ev exampleConfig exampleFeishu ?w))) = replyRequests (calls ?w)"
      "\<forall>v token v1 files v2.
             enabled exampleConfig \<and>
             getTenantAccessToken ?ev (appId exampleFeishu) (appSecret exampleFeishu) v
               = (Inr token, v1) \<and>
             resolveWatchedFiles ?ev token exampleConfig v1 = (Inr files, v2) \<and> files \<noteq> [] \<longrightarrow>
             (\<exists>s. stateFile (doPoll ?ev exampleConfig exampleFeishu v) = Parsed s
                   \<and> lastPollTime s = dateNow ?ev (calls (doPoll ?ev exampleConfig exampleFeishu v)))"
    by blast+
  from inst(3) tok res have
    "\<exists>s. stateFile (doPoll ?ev exampleConfig exampleFeishu ?w) = Parsed s
          \<and> lastPollTime s = dateNow ?ev (calls (doPoll ?ev exampleConfig exampleFeishu ?w))"
    by (auto simp: exampleConfig_def)
  then have stamp: "\<exists>s. stateFile (doPoll ?ev exampleConfig exampleFeishu ?w) = Parsed s
          \<and> lastPollTime s = 1000" by (simp add: exampleEnv_def)
  have ids0: "processedIdsOf (loadState ?w) ''docA'' = [''c1'']"
    by (simp add: processedIdsOf_def loadState_def)
  have ans: "getComments ?ev [TokenRequest ''cli_app'' ''secret''] ''t-1'' ''docA''
      = Responds (okData (Some [exampleComment ''c1'']))" by (simp add: exampleEnv_def)
  from inst(1) ids0 have ids2: "processedIdsOf (loadState (doPoll ?ev exampleConfig exampleFeishu
                (doPoll ?ev exampleConfig exampleFeishu ?w))) ''docA'' = [''c1'']" by simp
  from inst(2) have "replyRequests (calls (doPoll ?ev exampleConfig exampleFeishu
                (doPoll ?ev exampleConfig exampleFeishu ?w))) = []"
    by (simp add: freshWorld_def replyRequests_def)
  with run ans ids0 ids2 stamp show ?thesis by blast
qed

text \<open>The claim as it stands, with the state unchanged, fails: the state file records
  \<open>c1\<close> of \<open>docA\<close> with \<open>lastPollTime\<close> 0, the service lists only \<open>c1\<close>, the clock shows
  1000. The two cycles send one token request and two comment requests, and no reply;
  after them the file holds \<open>lastPollTime\<close> 1000.\<close>

theorem idle_cycles_change_state_file:
  "stateFile (doPoll (exampleEnv [exampleComment ''c1'']) exampleConfig exampleFeishu
      (doPoll (exampleEnv [exampleComment ''c1'']) exampleConfig exampleFeishu
        (freshWorld\<lparr>stateFile := Parsed \<lparr>lastPollTime = 0,
           processedComments = [''docA'' \<mapsto> [''c1'']]\<rparr>\<rparr>)))
   = Parsed \<lparr>lastPollTime = 1000, processedComments = [''docA'' \<mapsto> [''c1'']]\<rparr>
   \<and> stateFile (doPoll (exampleEnv [exampleComment ''c1'']) exampleConfig exampleFeishu
      (doPoll (exampleEnv [exampleComment ''c1'']) exampleConfig exampleFeishu
        (freshWorld\<lparr>stateFile := Parsed \<lparr>lastPollTime = 0,
           processedComments = [''docA'' \<mapsto> [''c1'']]\<rparr>\<rparr>)))
   \<noteq> stateFile (freshWorld\<lparr>stateFile := Parsed \<lparr>lastPollTime = 0,
           processedComments = [''docA'' \<mapsto> [''c1'']]\<rparr>\<rparr>)
   \<and> calls (doPoll (exampleEnv [exampleComment ''c1'']) exampleConfig exampleFeishu
      (doPoll (exampleEnv [exampleComment ''c1'']) exampleConfig exampleFeishu
        (freshWorld\<lparr>stateFile := Parsed \<lparr>lastPollTime = 0,
           processedComments = [''docA'' \<mapsto> [''c1'']]\<rparr>\<rparr>)))
     = [TokenRequest ''cli_app'' ''secret'', CommentsRequest ''t-1'' ''docA'' ''docx'',
        CommentsRequest ''t-1'' ''docA'' ''docx'']"
  by (simp add: cycle_defs example_defs)

subsection \<open>Failures while fetching comments\<close>

text \<open>
  Claim C6, amended. When the service answers the comment request with code 0,
  \<open>getFileComments\<close> returns the comments of the answer (none when the answer has no list);
  when it answers with another code, \<open>getFileComments\<close> writes an error line and returns
  the empty list, and the cycle goes on to the remaining documents. When the request
  itself throws, \<open>getFileComments\<close> throws too; the loop over the documents catches the
  error, writes an error line, leaves the state as it is and goes on to the remaining
  documents. Once the token and the list of documents are there, the cycle ends without
  an error, whatever the comment requests do.
\<close>

theorem fetch_failure_isolated:
  "(getComments ev (calls w) cl f = Responds r \<and> code r = 0 \<longrightarrow>
      fst (getFileComments ev cl f w) =
        Inr (case payload r of None \<Rightarrow> [] | Some items \<Rightarrow> items))
   \<and> (getComments ev (calls w) cl f = Responds r \<and> code r \<noteq> 0 \<longrightarrow>
      getFileComments ev cl f w =
        (Inr [], console_error (FailedToGetComments (msg r))
                   (sent (CommentsRequest cl f ''docx'') w))
      \<and> pollFiles ev cl (f # rest) (s, w) =
          pollFiles ev cl rest
            (s\<lparr>processedComments := (processedComments s)(f \<mapsto> processedIdsOf s f)\<rparr>,
             console_error (FailedToGetComments (msg r))
               (sent (CommentsRequest cl f ''docx'') w)))
   \<and> (getComments ev (calls w) cl f = Throws err \<longrightarrow>
      fst (getFileComments ev cl f w) = Inl err
      \<and> pollFiles ev cl (f # rest) (s, w) =
          pollFiles ev cl rest
            (s, console_error (ErrorProcessingFile f err)
                  (sent (CommentsRequest cl f ''docx'') w)))
   \<and> (getTenantAccessToken ev (appId fc) (appSecret fc) w0 = (Inr token, w1) \<and>
      resolveWatchedFiles ev token config w1 = (Inr files, w2) \<longrightarrow>
      fst (pollDocumentComments ev config fc w0) = Inr ())"
proof (intro conjI impI)
  assume "getTenantAccessToken ev (appId fc) (appSecret fc) w0 = (Inr token, w1) \<and>
      resolveWatchedFiles ev token config w1 = (Inr files, w2)"
  then show "fst (pollDocumentComments ev config fc w0) = Inr ()"
    by (simp add: pollDocumentComments_def Let_def split: prod.splits)
qed (simp_all add: getFileComments_def pollFile_def Let_def)

text \<open>Instances: the comment request for \<open>docA\<close> is answered with code 0 and one
  comment; the request for \<open>docB\<close> is answered with another code; the request for \<open>docB\<close>
  throws while those for \<open>docA\<close> and \<open>docC\<close> are answered. In the last case the cycle
  records the comments of \<open>docA\<close> and \<open>docC\<close>, records nothing for \<open>docB\<close>, writes
  one error line and ends without an error.\<close>

theorem fetch_failure_isolated_witness:
  "fst (getFileComments (exampleEnv [exampleComment ''c1'']) ''t-1'' ''docA'' freshWorld)
     = Inr [exampleComment ''c1'']
   \<and> getFileComments (refusingFetch ''docB'' (exampleEnv [exampleComment ''c1'']))
        ''t-1'' ''docB'' freshWorld
     = (Inr [], freshWorld\<lparr>calls := [CommentsRequest ''t-1'' ''docB'' ''docx''],
                          console := [FailedToGetComments ''forbidden'']\<rparr>)
   \<and> getComments (failingFetch ''docB'' (exampleEnv [exampleComment ''c1'']))
        [TokenRequest ''cli_app'' ''secret''] ''t-1'' ''docB'' = Throws (Error ''timeout'')
   \<and> pollFiles (failingFetch ''docB'' (exampleEnv [exampleComment ''c1''])) ''t-1''
        [''docB'', ''docC'']
        (loadState freshWorld, freshWorld\<lparr>calls := [TokenRequest ''cli_app'' ''secret'']\<rparr>)
      = pollFiles (failingFetch ''docB'' (exampleEnv [exampleComment ''c1''])) ''t-1''
          [''docC'']
          (loadState freshWorld,
           freshWorld\<lparr>calls := [TokenRequest ''cli_app'' ''secret'',
                                 CommentsRequest ''t-1'' ''docB'' ''docx''],
                      console := [ErrorProcessingFile ''docB'' (Error ''timeout'')]\<rparr>)
   \<and> map (processedIdsOf (loadState (snd (pollDocumentComments
          (failingFetch ''docB'' (exampleEnv [exampleComment ''c1'']))
          (exampleConfig\<lparr>watchedFiles := [''docA'', ''docB'', ''docC'']\<rparr>) exampleFeishu
          freshWorld)))) [''docA'', ''docB'', ''docC''] = [[''c1''], [], [''c1'']]
   \<and> console (snd (pollDocumentComments
          (failingFetch ''docB'' (exampleEnv [exampleComment ''c1'']))
          (exampleConfig\<lparr>watchedFiles := [''docA'', ''docB'', ''docC'']\<rparr>) exampleFeishu
          freshWorld)) = [ErrorProcessingFile ''docB'' (Error ''timeout'')]
   \<and> fst (pollDocumentComments
          (failingFetch ''docB'' (exampleEnv [exampleComment ''c1'']))
          (exampleConfig\<lparr>watchedFiles := [''docA'', ''docB'', ''docC'']\<rparr>) exampleFeishu
          freshWorld) = Inr ()"
  using fetch_failure_isolated [where
      ev = "exampleEnv [exampleComment ''c1'']" and w = freshWorld
      and cl = "''t-1''" and f = "''docA''" and r = "okData (Some [exampleComment ''c1''])"]
    fetch_failure_isolated [where
      ev = "refusingFetch ''docB'' (exampleEnv [exampleComment ''c1''])" and w = freshWorld
      and cl = "''t-1''" and f = "''docB''" and r = "failedData None"]
    fetch_failure_isolated [where
      ev = "failingFetch ''docB'' (exampleEnv [exampleComment ''c1''])"
      and w = "freshWorld\<lparr>calls := [TokenRequest ''cli_app'' ''secret'']\<rparr>"
      and cl = "''t-1''" and f = "''docB''" and err = "Error ''timeout''"
      and rest = "[''docC'']" and s = "loadState freshWorld"
      and fc = exampleFeishu and ?w0.0 = freshWorld and token = "''t-1''"
      and ?w1.0 = "freshWorld\<lparr>accessToken := Some ''t-1'', tokenExpiry := 7141000,
                     calls := [TokenRequest ''cli_app'' ''secret'']\<rparr>"
      and config = "exampleConfig\<lparr>watchedFiles := [''docA'', ''docB'', ''docC'']\<rparr>"
      and files = "[''docA'', ''docB'', ''docC'']"
      and ?w2.0 = "freshWorld\<lparr>accessToken := Some ''t-1'', tokenExpiry := 7141000,
                     calls := [TokenRequest ''cli_app'' ''secret'']\<rparr>"]
  by (simp add: cycle_defs example_defs)

text \<open>The claim as it stands, with the empty list on every error, fails: when the
  request throws, \<open>getFileComments\<close> returns no list and throws the error.\<close>

theorem getFileComments_throws:
  "fst (getFileComments (failingFetch ''docB'' (exampleEnv [])) ''t-1'' ''docB'' freshWorld)
     = Inl (Error ''timeout'')
   \<and> fst (getFileComments (failingFetch ''docB'' (exampleEnv [])) ''t-1'' ''docB'' freshWorld)
     \<noteq> Inr []"
  by (simp add: getFileComments_def Let_def example_defs)

subsection \<open>Falling back to the configured documents\<close>

text \<open>
  Claim C7. When an index document is configured and reading it yields no token, the
  documents of the cycle are the list \<open>watchedFiles\<close> of the configuration: the cycle
  polls exactly these and saves the state. When that list is empty too, the cycle ends
  after the request for the index document: the token request, if the cached token has
  expired, and the request for the blocks of the index document are all it sends, so
  it fetches no comments and posts no reply, and it leaves the state file as it was.
\<close>

theorem fallback_to_watchedFiles:
  assumes "enabled config"
    and "getTenantAccessToken ev (appId fc) (appSecret fc) w = (Inr token, w1)"
    and "truthy (indexDocument config)"
    and "getWatchedFilesFromIndex ev token (the (indexDocument config)) w1 = (Inr [], w2)"
  shows "resolveWatchedFiles ev token config w1 = (Inr (watchedFiles config), w2)
       \<and> (watchedFiles config \<noteq> [] \<longrightarrow>
            pollDocumentComments ev config fc w =
              (Inr (),
               saveState
                 (fst (pollFiles ev token (watchedFiles config) (loadState w, w2))
                    \<lparr>lastPollTime := dateNow ev
                       (calls (snd (pollFiles ev token (watchedFiles config)
                                      (loadState w, w2))))\<rparr>)
                 (snd (pollFiles ev token (watchedFiles config) (loadState w, w2)))))
       \<and> (watchedFiles config = [] \<longrightarrow>
            pollDocumentComments ev config fc w = (Inr (), w2)
            \<and> stateFile w2 = stateFile w
            \<and> calls w2 = calls w1 @ [BlocksRequest token (the (indexDocument config))]
            \<and> (calls w1 = calls w
                 \<or> calls w1 = calls w @ [TokenRequest (appId fc) (appSecret fc)]))"
proof -
  from assms(3,4) have res:
    "resolveWatchedFiles ev token config w1 = (Inr (watchedFiles config), w2)"
    by (simp add: resolveWatchedFiles_def)
  from getTenantAccessToken_effect(1) [OF assms(2)] getWatchedFilesFromIndex_effect [OF assms(4)]
  have "stateFile w2 = stateFile w"
    "calls w2 = calls w1 @ [BlocksRequest token (the (indexDocument config))]"
    by simp_all
  moreover note getTenantAccessToken_effect(3) [OF assms(2)]
  ultimately show ?thesis using res assms(1,2)
    by (simp add: pollDocumentComments_def Let_def split: prod.splits)
qed

text \<open>Two instances with the index document \<open>idx\<close>, which has no blocks: with
  \<open>watchedFiles\<close> \<open>[docA]\<close> the cycle polls \<open>docA\<close>; with the empty list it ends after the
  token request and the request for the blocks of \<open>idx\<close>, and writes no state file.\<close>

theorem fallback_to_watchedFiles_witness:
  "getWatchedFilesFromIndex (exampleEnv [exampleComment ''c1'']) ''t-1'' ''idx''
      (snd (getTenantAccessToken (exampleEnv [exampleComment ''c1'']) ''cli_app'' ''secret''
              freshWorld))
     = (Inr [], freshWorld\<lparr>accessToken := Some ''t-1'', tokenExpiry := 7141000,
           calls := [TokenRequest ''cli_app'' ''secret'', BlocksRequest ''t-1'' ''idx'']\<rparr>)
   \<and> calls (snd (pollDocumentComments (exampleEnv [exampleComment ''c1''])
        (exampleConfig\<lparr>indexDocument := Some ''idx''\<rparr>) exampleFeishu freshWorld))
     = [TokenRequest ''cli_app'' ''secret'', BlocksRequest ''t-1'' ''idx'',
        CommentsRequest ''t-1'' ''docA'' ''docx'', AgentInvoke (buildPrompt ''why?'' None),
        ReplyRequest ''t-1'' ''docA'' ''c1'' ''ok'' ''docx'']
   \<and> pollDocumentComments (exampleEnv [exampleComment ''c1''])
        (exampleConfig\<lparr>indexDocument := Some ''idx'', watchedFiles := []\<rparr>) exampleFeishu
        freshWorld
     = (Inr (), freshWorld\<lparr>accessToken := Some ''t-1'', tokenExpiry := 7141000,
           calls := [TokenRequest ''cli_app'' ''secret'', BlocksRequest ''t-1'' ''idx'']\<rparr>)"
  using fallback_to_watchedFiles [of "exampleConfig\<lparr>indexDocument := Some ''idx''\<rparr>"
      "exampleEnv [exampleComment ''c1'']" exampleFeishu freshWorld "''t-1''"
      "freshWorld\<lparr>accessToken := Some ''t-1'', tokenExpiry := 7141000,
           calls := [TokenRequest ''cli_app'' ''secret'']\<rparr>"
      "freshWorld\<lparr>accessToken := Some ''t-1'', tokenExpiry := 7141000,
           calls := [TokenRequest ''cli_app'' ''secret'', BlocksRequest ''t-1'' ''idx'']\<rparr>"]
    fallback_to_watchedFiles [of
      "exampleConfig\<lparr>indexDocument := Some ''idx'', watchedFiles := []\<rparr>"
      "exampleEnv [exampleComment ''c1'']" exampleFeishu freshWorld "''t-1''"
      "freshWorld\<lparr>accessToken := Some ''t-1'', tokenExpiry := 7141000,
           calls := [TokenRequest ''cli_app'' ''secret'']\<rparr>"
      "freshWorld\<lparr>accessToken := Some ''t-1'', tokenExpiry := 7141000,
           calls := [TokenRequest ''cli_app'' ''secret'', BlocksRequest ''t-1'' ''idx'']\<rparr>"]
  by (simp add: cycle_defs example_defs extractDocLinks_def)

subsection \<open>Extracted tokens\<close>

text \<open>
  Claim C8. For every block list \<open>extractDocLinks\<close> returns what the specification says:
  the tokens of all links of all elements of the fifteen containers of all blocks, in
  first-seen order, each once. So a block list whose links are
  \<^verbatim>\<open>https://x.feishu.cn/docx/\<close> followed by a token \<open>t\<close> and then \<^verbatim>\<open>https://x.feishu.cn/wiki/\<close>
  followed by a token \<open>u\<close>, in whatever containers they stand, yields \<open>[t, u]\<close> (and \<open>[t]\<close>
  when the two tokens are the same), and \<open>[u, t]\<close> when the links come in the other order.
  For a heading block whose text run links to \<^verbatim>\<open>https://x.feishu.cn/docx/ABC123\<close> followed
  by a bullet block whose text run links to \<^verbatim>\<open>https://x.feishu.cn/wiki/XYZ789\<close>, whatever
  the strings of the two text runs, it returns \<open>[ABC123, XYZ789]\<close>; and for every block
  list no token occurs twice in the list that it returns.
\<close>

theorem extractDocLinks_first_seen_once:
  "extractDocLinks blocks = specDocLinks blocks
   \<and> (\<forall>t u. t \<noteq> [] \<and> list_all isAlnum t \<and> u \<noteq> [] \<and> list_all isAlnum u \<and>
        linkUrls blocks = [''https://x.feishu.cn/docx/'' @ t, ''https://x.feishu.cn/wiki/'' @ u]
        \<longrightarrow> extractDocLinks blocks = Inr (if t = u then [t] else [t, u]))
   \<and> (\<forall>t u. t \<noteq> [] \<and> list_all isAlnum t \<and> u \<noteq> [] \<and> list_all isAlnum u \<and>
        linkUrls blocks = [''https://x.feishu.cn/wiki/'' @ u, ''https://x.feishu.cn/docx/'' @ t]
        \<longrightarrow> extractDocLinks blocks = Inr (if t = u then [t] else [u, t]))
   \<and> extractDocLinks
       [emptyBlock\<lparr>heading1 :=
          Some \<lparr>elements = Some [linkedElement t1 ''https://x.feishu.cn/docx/ABC123'']\<rparr>\<rparr>,
        emptyBlock\<lparr>bullet :=
          Some \<lparr>elements = Some [linkedElement t2 ''https://x.feishu.cn/wiki/XYZ789'']\<rparr>\<rparr>]
       = Inr [''ABC123'', ''XYZ789'']
   \<and> (\<forall>blocks tokens. extractDocLinks blocks = Inr tokens \<longrightarrow> distinct tokens)"
proof (intro conjI allI impI)
  show "extractDocLinks blocks = specDocLinks blocks" by (rule extractDocLinks_spec)
next
  fix t u
  assume "t \<noteq> [] \<and> list_all isAlnum t \<and> u \<noteq> [] \<and> list_all isAlnum u \<and>
        linkUrls blocks = [''https://x.feishu.cn/docx/'' @ t, ''https://x.feishu.cn/wiki/'' @ u]"
  then show "extractDocLinks blocks = Inr (if t = u then [t] else [t, u])"
    by (intro extractDocLinks_two_links) blast+
next
  fix t u
  assume "t \<noteq> [] \<and> list_all isAlnum t \<and> u \<noteq> [] \<and> list_all isAlnum u \<and>
        linkUrls blocks = [''https://x.feishu.cn/wiki/'' @ u, ''https://x.feishu.cn/docx/'' @ t]"
  then show "extractDocLinks blocks = Inr (if t = u then [t] else [u, t])"
    by (intro extractDocLinks_two_links_reversed) blast+
next
  show "extractDocLinks
       [emptyBlock\<lparr>heading1 :=
          Some \<lparr>elements = Some [linkedElement t1 ''https://x.feishu.cn/docx/ABC123'']\<rparr>\<rparr>,
        emptyBlock\<lparr>bullet :=
          Some \<lparr>elements = Some [linkedElement t2 ''https://x.feishu.cn/wiki/XYZ789'']\<rparr>\<rparr>]
       = Inr [''ABC123'', ''XYZ789'']"
    by (simp add: extraction_example_defs)
next
  fix bs :: "block list" and tokens
  assume "extractDocLinks bs = Inr tokens"
  then show "distinct tokens"
    using distinct_processBlocks [of "[]"] by (auto simp: extractDocLinks_def)
qed

text \<open>Instances: the wiki link in a bullet block before the document link in a block of
  heading level 2; and the two links of the example with the first of them once more in
  an ordered block, a callout block and a quote block.\<close>

theorem extractDocLinks_first_seen_once_witness:
  "linkUrls
     [emptyBlock\<lparr>bullet :=
        Some \<lparr>elements = Some [linkedElement ''B'' ''https://x.feishu.cn/wiki/XYZ789'']\<rparr>\<rparr>,
      emptyBlock\<lparr>heading2 :=
        Some \<lparr>elements = Some [linkedElement ''A'' ''https://x.feishu.cn/docx/ABC123'']\<rparr>\<rparr>]
     = [''https://x.feishu.cn/wiki/XYZ789'', ''https://x.feishu.cn/docx/ABC123'']
   \<and> extractDocLinks
     [emptyBlock\<lparr>bullet :=
        Some \<lparr>elements = Some [linkedElement ''B'' ''https://x.feishu.cn/wiki/XYZ789'']\<rparr>\<rparr>,
      emptyBlock\<lparr>heading2 :=
        Some \<lparr>elements = Some [linkedElement ''A'' ''https://x.feishu.cn/docx/ABC123'']\<rparr>\<rparr>]
     = Inr [''XYZ789'', ''ABC123'']
   \<and> extractDocLinks
     [emptyBlock\<lparr>heading3 :=
        Some \<lparr>elements = Some [linkedElement ''A'' ''https://x.feishu.cn/docx/ABC123'']\<rparr>\<rparr>,
      emptyBlock\<lparr>ordered :=
        Some \<lparr>elements = Some [linkedElement ''B'' ''https://x.feishu.cn/wiki/XYZ789'',
                               linkedElement ''A'' ''https://x.feishu.cn/docx/ABC123'']\<rparr>,
        callout :=
        Some \<lparr>elements = Some [linkedElement ''A'' ''https://x.feishu.cn/docx/ABC123'']\<rparr>\<rparr>,
      emptyBlock\<lparr>quote_blk :=
        Some \<lparr>elements = Some [linkedElement ''A'' ''https://x.feishu.cn/docx/ABC123'']\<rparr>\<rparr>]
     = Inr [''ABC123'', ''XYZ789'']
   \<and> distinct [''ABC123'', ''XYZ789'']"
proof -
  let ?rev = "[emptyBlock\<lparr>bullet :=
        Some \<lparr>elements = Some [linkedElement ''B'' ''https://x.feishu.cn/wiki/XYZ789'']\<rparr>\<rparr>,
      emptyBlock\<lparr>heading2 :=
        Some \<lparr>elements = Some [linkedElement ''A'' ''https://x.feishu.cn/docx/ABC123'']\<rparr>\<rparr>]"
  let ?dup = "[emptyBlock\<lparr>heading3 :=
        Some \<lparr>elements = Some [linkedElement ''A'' ''https://x.feishu.cn/docx/ABC123'']\<rparr>\<rparr>,
      emptyBlock\<lparr>ordered :=
        Some \<lparr>elements = Some [linkedElement ''B'' ''https://x.feishu.cn/wiki/XYZ789'',
                               linkedElement ''A'' ''https://x.feishu.cn/docx/ABC123'']\<rparr>,
        callout :=
        Some \<lparr>elements = Some [linkedElement ''A'' ''https://x.feishu.cn/docx/ABC123'']\<rparr>\<rparr>,
      emptyBlock\<lparr>quote_blk :=
        Some \<lparr>elements = Some [linkedElement ''A'' ''https://x.feishu.cn/docx/ABC123'']\<rparr>\<rparr>]"
  have urls: "linkUrls ?rev
      = [''https://x.feishu.cn/wiki/XYZ789'', ''https://x.feishu.cn/docx/ABC123'']"
    by (simp add: linkUrls_def blockUrls_def containerUrls_def elementUrls_def linkUrl_def
        emptyBlock_def linkedElement_def)
  then have urls': "linkUrls ?rev
      = [''https://x.feishu.cn/wiki/'' @ ''XYZ789'', ''https://x.feishu.cn/docx/'' @ ''ABC123'']"
    by simp
  have alnum: "list_all isAlnum ''ABC123''" "list_all isAlnum ''XYZ789''"
    by (simp_all add: isAlnum_def)
  have ne: "''ABC123'' \<noteq> []" "''XYZ789'' \<noteq> []" "''ABC123'' \<noteq> ''XYZ789''" by simp_all
  from extractDocLinks_first_seen_once [of ?rev] have
    "\<forall>t u. t \<noteq> [] \<and> list_all isAlnum t \<and> u \<noteq> [] \<and> list_all isAlnum u \<and>
        linkUrls ?rev = [''https://x.feishu.cn/wiki/'' @ u, ''https://x.feishu.cn/docx/'' @ t]
        \<longrightarrow> extractDocLinks ?rev = Inr (if t = u then [t] else [u, t])"
    by blast
  then have "extractDocLinks ?rev
      = Inr (if ''ABC123'' = ''XYZ789'' then [''ABC123''] else [''XYZ789'', ''ABC123''])"
    using urls' alnum ne by blast
  then have rev: "extractDocLinks ?rev = Inr [''XYZ789'', ''ABC123'']" by simp
  have dup: "extractDocLinks ?dup = Inr [''ABC123'', ''XYZ789'']"
    by (simp add: extraction_example_defs)
  from extractDocLinks_first_seen_once [of ?dup] dup have "distinct [''ABC123'', ''XYZ789'']"
    by blast
  with urls rev dup show ?thesis by blast
qed

subsection \<open>The reply of the agent\<close>

text \<open>
  Claim C9, amended. \<open>processCommentWithAgent\<close> always returns a string: the answer of
  the agent when it is not empty; one fixed reply when the invocation rejects or resolves
  with no object; and another, different fixed reply when the invocation resolves with
  an object whose response is missing or empty.
\<close>

theorem processCommentWithAgent_replies:
  "fst (processCommentWithAgent ev commentText q w) =
     (case invoke ev (calls w) (buildPrompt commentText q) of
        Rejects err \<Rightarrow> invocationFailedReply
      | ResolvesNothing \<Rightarrow> invocationFailedReply
      | Resolves None \<Rightarrow> emptyResponseReply
      | Resolves (Some s) \<Rightarrow> if s = [] then emptyResponseReply else s)
   \<and> invocationFailedReply \<noteq> emptyResponseReply"
  by (simp add: processCommentWithAgent_def truthy_def Let_def invocationFailedReply_def
      emptyResponseReply_def split: invoke_result.splits option.splits)

text \<open>The claim as it stands, with one fallback string for both cases, fails: the reply
  after a rejected invocation is not the reply after an empty response.\<close>

theorem fallback_replies_differ:
  "fst (processCommentWithAgent ((exampleEnv [])\<lparr>invoke := (\<lambda>h p. Rejects (Error ''down''))\<rparr>)
          ''why?'' None freshWorld)
   \<noteq> fst (processCommentWithAgent ((exampleEnv [])\<lparr>invoke := (\<lambda>h p. Resolves (Some []))\<rparr>)
          ''why?'' None freshWorld)"
  by (simp add: processCommentWithAgent_def truthy_def Let_def invocationFailedReply_def
      emptyResponseReply_def example_defs)

subsection \<open>Plain text is not a link\<close>

text \<open>
  Claim C10. \<open>extractDocLinks\<close> reads only the URL of the link style of a text run:
  replacing the string of every text run by any other string changes nothing in what it
  returns, and a block whose text run holds a document URL as plain text, with no link
  style, yields no token.
\<close>

theorem extractDocLinks_ignores_text:
  "extractDocLinks (map (retextBlock g) blocks) = extractDocLinks blocks
   \<and> extractDocLinks
       [emptyBlock\<lparr>text_blk :=
          Some \<lparr>elements = Some [plainElement ''https://x.feishu.cn/docx/ABC123'']\<rparr>\<rparr>]
     = Inr []"
  by (simp add: extractDocLinks_def processBlocks_retext emptyBlock_def plainElement_def
      elementContainers_def linkUrl_def)

end
